theory Spec2Isabelle
  imports Complex_Main
begin

section \<open>Data model (src/types, as used by src/lib/mockApi.ts)\<close>

text \<open>
  An ISO date string is represented by what \<^verbatim>\<open>new Date(s).getTime()\<close> makes of it:
  \<open>Some ms\<close>, the milliseconds since the epoch, or \<open>None\<close> when the string is not a
  date and the time value is NaN. Identifiers are strings, seat counts are integers.
\<close>

type_synonym iso = "int option"

datatype role = STUDENT | TEACHER

datatype status = BOOKED | CANCELLED | ATTENDED

record user =
  user_id :: string
  name :: string
  role :: role
  email :: string

record slot =
  slot_id :: string
  teacherId :: string
  startISO :: iso
  endISO :: iso
  location :: string
  maxSeats :: int
  availableSeats :: int

record appointment =
  appt_id :: string
  slotId :: string
  studentId :: string
  status :: status
  appt_notes :: "string option"
  createdAt :: int
  cancelledAt :: "int option"

text \<open>The three collections kept in localStorage under STORAGE_KEYS.\<close>

record storage =
  users :: "user list"
  slots :: "slot list"
  appointments :: "appointment list"

text \<open>
  The \<^verbatim>\<open>updates\<close> object of updateSlot. A time field is absent, or falsy (the empty
  string or \<^verbatim>\<open>undefined\<close>, whose time value is NaN), or a non-empty string with its time
  value; the other fields are absent or given. The declared type leaves teacherId out,
  but the object the schedule page passes carries it, so it is a field here.
\<close>

datatype isoField = Absent | Falsy | Given iso

record slotUpdates =
  upd_teacherId :: "string option"
  upd_startISO :: isoField
  upd_endISO :: isoField
  upd_location :: "string option"
  upd_maxSeats :: "int option"
  upd_availableSeats :: "int option"

text \<open>
  One constructor for each \<^verbatim>\<open>throw new Error(...)\<close> of the slot and appointment
  operations, named after the error kinds of the specification; \<open>message\<close> gives the
  text that is thrown. updateSlot and deleteSlot throw different texts for the kind
  SlotHasBookings, hence two constructors.
\<close>

datatype error =
    InvalidTeacher
  | InvalidTimeRange
  | OverlappingSlot
  | SlotNotFound
  | SlotHasBookings_update
  | SlotHasBookings_delete
  | InvalidStudent
  | SlotFull
  | TooLateToBook
  | ConflictingAppointment
  | AppointmentNotFound
  | AssociatedSlotNotFound
  | NotAuthorized
  | TooLateToCancel

fun message :: "error \<Rightarrow> string" where
  "message InvalidTeacher = ''Invalid teacher ID or user is not a teacher''"
| "message InvalidTimeRange = ''End time must be after start time''"
| "message OverlappingSlot = ''This slot overlaps with an existing slot''"
| "message SlotNotFound = ''Slot not found''"
| "message SlotHasBookings_update = ''Cannot change time of a slot that has bookings''"
| "message SlotHasBookings_delete = ''Cannot delete a slot that has bookings''"
| "message InvalidStudent = ''Invalid student ID or user is not a student''"
| "message SlotFull = ''This slot is fully booked''"
| "message TooLateToBook = ''Cannot book appointments less than 1 hour before start time''"
| "message ConflictingAppointment = ''You have a conflicting appointment at this time''"
| "message AppointmentNotFound = ''Appointment not found''"
| "message AssociatedSlotNotFound = ''Associated slot not found''"
| "message NotAuthorized = ''You are not authorized to cancel this appointment''"
| "message TooLateToCancel = ''Cannot cancel within 24 hours of appointment time''"

section \<open>Helpers (src/utils/helpers.ts)\<close>

text \<open>JavaScript's \<^verbatim>\<open><\<close> and \<^verbatim>\<open>>=\<close> on time values: any comparison with NaN is false.\<close>

definition num_less :: "int option \<Rightarrow> int option \<Rightarrow> bool" where
  "num_less a b = (case a of None \<Rightarrow> False
                   | Some x \<Rightarrow> (case b of None \<Rightarrow> False | Some y \<Rightarrow> x < y))"

definition num_ge :: "int option \<Rightarrow> int option \<Rightarrow> bool" where
  "num_ge a b = (case a of None \<Rightarrow> False
                 | Some x \<Rightarrow> (case b of None \<Rightarrow> False | Some y \<Rightarrow> x \<ge> y))"

text \<open>
  \<^verbatim>\<open>hoursUntilSlot = (slotStart.getTime() - now.getTime()) / (1000 * 60 * 60)\<close>.
  The clock reading \<open>now\<close> is a parameter, in milliseconds; \<open>None\<close> is NaN. The
  quotient is taken exactly, in the rationals. Time values are integers, so a quotient
  above 1 or 24 exceeds it by at least 1/3600000, far more than the rounding of the
  division: the comparisons \<^verbatim>\<open>> 1\<close> and \<^verbatim>\<open>> 24\<close> come out the same.
\<close>

definition hoursUntilSlot :: "iso \<Rightarrow> int \<Rightarrow> rat option" where
  "hoursUntilSlot slotStartISO now =
     (case slotStartISO of None \<Rightarrow> None
      | Some slotStart \<Rightarrow> Some (rat_of_int (slotStart - now) / (1000 * 60 * 60)))"

definition isWithinCancellationWindow :: "iso \<Rightarrow> int \<Rightarrow> bool" where
  "isWithinCancellationWindow slotStartISO now =
     (case hoursUntilSlot slotStartISO now of None \<Rightarrow> False | Some h \<Rightarrow> h > 24)"

definition isBookingAllowed :: "iso \<Rightarrow> int \<Rightarrow> bool" where
  "isBookingAllowed slotStartISO now =
     (case hoursUntilSlot slotStartISO now of None \<Rightarrow> False | Some h \<Rightarrow> h > 1)"

definition slotsOverlap :: "iso \<Rightarrow> iso \<Rightarrow> iso \<Rightarrow> iso \<Rightarrow> bool" where
  "slotsOverlap start1 end1 start2 end2 =
     (let s1 = start1; e1 = end1; s2 = start2; e2 = end2
      in num_less s1 e2 \<and> num_less s2 e1)"

text \<open>\<^verbatim>\<open>Array.prototype.findIndex\<close>: the first index whose element passes, \<open>None\<close> for -1.\<close>

fun findIndex :: "('a \<Rightarrow> bool) \<Rightarrow> 'a list \<Rightarrow> nat option" where
  "findIndex P [] = None"
| "findIndex P (x # xs) =
     (if P x then Some 0 else map_option Suc (findIndex P xs))"

section \<open>Slot and appointment API (src/lib/mockApi.ts)\<close>

text \<open>
  Every operation reads the collections from the storage, may throw, and writes the
  collections back with saveToStorage. It returns the thrown error or the result,
  together with the storage as the writes made so far left it. \<open>newId\<close> is the value
  of \<^verbatim>\<open>uid()\<close>, \<open>now\<close> the clock reading of the policy check and \<open>stamp\<close> the later
  reading stored as createdAt or cancelledAt.
\<close>

text \<open>
  \<^verbatim>\<open>slot\<close> is the element of \<^verbatim>\<open>slots\<close> that \<^verbatim>\<open>find\<close> returned, so the assignment to its
  field changes the array in place, at the index \<^verbatim>\<open>findIndex\<close> gives for the same test;
  \<^verbatim>\<open>slots[slotIndex] = slot\<close> then stores it where it already is.
\<close>

definition storeSlot :: "string \<Rightarrow> slot \<Rightarrow> slot list \<Rightarrow> slot list" where
  "storeSlot sid slot' xs =
     (case findIndex (\<lambda>s. slot_id s = sid) xs of
        None \<Rightarrow> xs
      | Some slotIndex \<Rightarrow> xs[slotIndex := slot'])"

definition createSlot :: "string \<Rightarrow> slot \<Rightarrow> storage \<Rightarrow> (error + slot) \<times> storage" where
  "createSlot newId slotData st =
     (case find (\<lambda>u. user_id u = teacherId slotData \<and> role u = TEACHER) (users st) of
        None \<Rightarrow> (Inl InvalidTeacher, st)
      | Some teacher \<Rightarrow>
          if num_ge (startISO slotData) (endISO slotData) then (Inl InvalidTimeRange, st)
          else
            (case find (\<lambda>s. teacherId s = teacherId slotData \<and>
                          slotsOverlap (startISO s) (endISO s)
                            (startISO slotData) (endISO slotData)) (slots st) of
               Some overlap \<Rightarrow> (Inl OverlappingSlot, st)
             | None \<Rightarrow>
                 (let newSlot = slotData\<lparr>slot_id := newId,
                                         availableSeats := maxSeats slotData\<rparr>
                  in (Inr newSlot, st\<lparr>slots := slots st @ [newSlot]\<rparr>))))"

text \<open>Truthiness of a time field, and the spread \<^verbatim>\<open>{...slot, ...updates}\<close>.\<close>

fun truthy :: "isoField \<Rightarrow> bool" where
  "truthy Absent = False"
| "truthy Falsy = False"
| "truthy (Given t) = True"

fun spreadISO :: "iso \<Rightarrow> isoField \<Rightarrow> iso" where
  "spreadISO old Absent = old"
| "spreadISO old Falsy = None"
| "spreadISO old (Given t) = t"

definition spread :: "slot \<Rightarrow> slotUpdates \<Rightarrow> slot" where
  "spread slot updates =
     slot\<lparr>teacherId := (case upd_teacherId updates of None \<Rightarrow> teacherId slot | Some t \<Rightarrow> t),
          startISO := spreadISO (startISO slot) (upd_startISO updates),
          endISO := spreadISO (endISO slot) (upd_endISO updates),
          location := (case upd_location updates of None \<Rightarrow> location slot | Some l \<Rightarrow> l),
          maxSeats := (case upd_maxSeats updates of None \<Rightarrow> maxSeats slot | Some m \<Rightarrow> m),
          availableSeats := (case upd_availableSeats updates of
                               None \<Rightarrow> availableSeats slot | Some n \<Rightarrow> n)\<rparr>"

definition hasBookings :: "string \<Rightarrow> appointment list \<Rightarrow> bool" where
  "hasBookings sid xs = list_ex (\<lambda>a. slotId a = sid \<and> status a = BOOKED) xs"

definition updateSlot :: "string \<Rightarrow> slotUpdates \<Rightarrow> storage \<Rightarrow> (error + slot) \<times> storage" where
  "updateSlot sid updates st =
     (case findIndex (\<lambda>s. slot_id s = sid) (slots st) of
        None \<Rightarrow> (Inl SlotNotFound, st)
      | Some slotIndex \<Rightarrow>
          (let slot = slots st ! slotIndex
           in if hasBookings sid (appointments st) \<and>
                 (truthy (upd_startISO updates) \<or> truthy (upd_endISO updates))
              then (Inl SlotHasBookings_update, st)
              else
                (let slots' = (slots st)[slotIndex := spread slot updates]
                 in (Inr (slots' ! slotIndex), st\<lparr>slots := slots'\<rparr>))))"

text \<open>\<^verbatim>\<open>slots.splice(slotIndex, 1)\<close> takes the element at the index out.\<close>

definition deleteSlot :: "string \<Rightarrow> storage \<Rightarrow> (error + unit) \<times> storage" where
  "deleteSlot sid st =
     (case findIndex (\<lambda>s. slot_id s = sid) (slots st) of
        None \<Rightarrow> (Inl SlotNotFound, st)
      | Some slotIndex \<Rightarrow>
          if hasBookings sid (appointments st) then (Inl SlotHasBookings_delete, st)
          else (Inr (),
                st\<lparr>slots := take slotIndex (slots st) @ drop (Suc slotIndex) (slots st)\<rparr>))"

text \<open>The loop over the student's BOOKED appointments: does one of them throw?\<close>

definition hasConflict :: "slot \<Rightarrow> slot list \<Rightarrow> appointment list \<Rightarrow> bool" where
  "hasConflict slot xs studentAppointments =
     list_ex (\<lambda>appt.
        case find (\<lambda>s. slot_id s = slotId appt) xs of
          None \<Rightarrow> False
        | Some apptSlot \<Rightarrow>
            slotsOverlap (startISO slot) (endISO slot) (startISO apptSlot) (endISO apptSlot))
       studentAppointments"

definition bookAppointment ::
  "string \<Rightarrow> int \<Rightarrow> int \<Rightarrow> string \<Rightarrow> string \<Rightarrow> string option \<Rightarrow> storage
     \<Rightarrow> (error + appointment) \<times> storage" where
  "bookAppointment newId now stamp sid stid nts st =
     (case find (\<lambda>u. user_id u = stid \<and> role u = STUDENT) (users st) of
        None \<Rightarrow> (Inl InvalidStudent, st)
      | Some student \<Rightarrow>
          (case find (\<lambda>s. slot_id s = sid) (slots st) of
             None \<Rightarrow> (Inl SlotNotFound, st)
           | Some slot \<Rightarrow>
               if availableSeats slot \<le> 0 then (Inl SlotFull, st)
               else if \<not> isBookingAllowed (startISO slot) now then (Inl TooLateToBook, st)
               else
                 (let studentAppointments =
                        filter (\<lambda>a. studentId a = stid \<and> status a = BOOKED) (appointments st)
                  in if hasConflict slot (slots st) studentAppointments
                     then (Inl ConflictingAppointment, st)
                     else
                       (let newAppointment =
                              \<lparr>appt_id = newId, slotId = sid, studentId = stid,
                               status = BOOKED, appt_notes = nts, createdAt = stamp,
                               cancelledAt = None\<rparr>;
                            st1 = st\<lparr>appointments := appointments st @ [newAppointment]\<rparr>;
                            slot' = slot\<lparr>availableSeats := availableSeats slot - 1\<rparr>
                        in (Inr newAppointment,
                            st1\<lparr>slots := storeSlot sid slot' (slots st)\<rparr>)))))"

definition cancelAppointment ::
  "int \<Rightarrow> int \<Rightarrow> string \<Rightarrow> string \<Rightarrow> storage \<Rightarrow> (error + unit) \<times> storage" where
  "cancelAppointment now stamp appointmentId userId st =
     (case findIndex (\<lambda>a. appt_id a = appointmentId) (appointments st) of
        None \<Rightarrow> (Inl AppointmentNotFound, st)
      | Some appointmentIndex \<Rightarrow>
          (let appointment = appointments st ! appointmentIndex
           in case find (\<lambda>s. slot_id s = slotId appointment) (slots st) of
                None \<Rightarrow> (Inl AssociatedSlotNotFound, st)
              | Some slot \<Rightarrow>
                  if studentId appointment \<noteq> userId \<and> teacherId slot \<noteq> userId
                  then (Inl NotAuthorized, st)
                  else if studentId appointment = userId \<and>
                          \<not> isWithinCancellationWindow (startISO slot) now
                  then (Inl TooLateToCancel, st)
                  else
                    (let st1 = st\<lparr>appointments := (appointments st)
                                  [appointmentIndex :=
                                     appointment\<lparr>status := CANCELLED,
                                                  cancelledAt := Some stamp\<rparr>]\<rparr>;
                         slot' = slot\<lparr>availableSeats := availableSeats slot + 1\<rparr>
                     in (Inr (),
                         st1\<lparr>slots := storeSlot (slotId appointment) slot' (slots st)\<rparr>))))"

definition markAttended :: "string \<Rightarrow> storage \<Rightarrow> (error + unit) \<times> storage" where
  "markAttended appointmentId st =
     (case findIndex (\<lambda>a. appt_id a = appointmentId) (appointments st) of
        None \<Rightarrow> (Inl AppointmentNotFound, st)
      | Some appointmentIndex \<Rightarrow>
          (Inr (),
           st\<lparr>appointments := (appointments st)
                 [appointmentIndex :=
                    (appointments st ! appointmentIndex)\<lparr>status := ATTENDED\<rparr>]\<rparr>))"

section \<open>Properties of a storage\<close>

text \<open>The status of the appointment that findIndex finds for an id.\<close>

definition statusOf :: "string \<Rightarrow> storage \<Rightarrow> status option" where
  "statusOf appointmentId st =
     map_option status (find (\<lambda>a. appt_id a = appointmentId) (appointments st))"

text \<open>The student id resolves to a user of role STUDENT.\<close>

definition validStudent :: "storage \<Rightarrow> string \<Rightarrow> bool" where
  "validStudent st stid = (\<exists>u\<in>set (users st). user_id u = stid \<and> role u = STUDENT)"

text \<open>
  A BOOKED appointment of the student lies on a slot whose range overlaps the range of
  the given slot.
\<close>

definition conflicting :: "storage \<Rightarrow> string \<Rightarrow> slot \<Rightarrow> bool" where
  "conflicting st stid slot =
     (\<exists>a\<in>set (appointments st). studentId a = stid \<and> status a = BOOKED \<and>
        (case find (\<lambda>s. slot_id s = slotId a) (slots st) of
           None \<Rightarrow> False
         | Some apptSlot \<Rightarrow>
             slotsOverlap (startISO slot) (endISO slot) (startISO apptSlot) (endISO apptSlot)))"

text \<open>The number of BOOKED appointments that reference a slot id.\<close>

definition bookedCount :: "string \<Rightarrow> appointment list \<Rightarrow> nat" where
  "bookedCount sid xs = length (filter (\<lambda>a. slotId a = sid \<and> status a = BOOKED) xs)"

text \<open>The seat equation and the seat bounds, for every slot of the storage.\<close>

definition seatsConsistent :: "storage \<Rightarrow> bool" where
  "seatsConsistent st =
     (\<forall>S\<in>set (slots st).
        availableSeats S = maxSeats S - int (bookedCount (slot_id S) (appointments st)))"

definition seatsInRange :: "storage \<Rightarrow> bool" where
  "seatsInRange st =
     (\<forall>S\<in>set (slots st). 0 \<le> availableSeats S \<and> availableSeats S \<le> maxSeats S)"

text \<open>
  The free seats and the BOOKED appointments of a slot together do not exceed its
  capacity. Appointments marked ATTENDED keep their seat without being counted, so this
  is an inequality where the seat equation has an equality.
\<close>

definition seatsBounded :: "storage \<Rightarrow> bool" where
  "seatsBounded st =
     (\<forall>S\<in>set (slots st).
        0 \<le> availableSeats S \<and>
        availableSeats S + int (bookedCount (slot_id S) (appointments st)) \<le> maxSeats S)"

text \<open>
  One book/cancel cycle: book, then cancel the appointment that was returned; and a
  run of such cycles on one slot for one student, each with its own uid, clock readings
  and cancelling user.
\<close>

definition bookThenCancel ::
  "string \<times> int \<times> int \<times> int \<times> int \<times> string \<Rightarrow> string \<Rightarrow> string \<Rightarrow> string option
     \<Rightarrow> storage \<Rightarrow> (error + unit) \<times> storage" where
  "bookThenCancel c sid stid nts st =
     (case c of (newId, now, stamp, now', stamp', userId) \<Rightarrow>
        (case bookAppointment newId now stamp sid stid nts st of
           (Inl e, st1) \<Rightarrow> (Inl e, st1)
         | (Inr a, st1) \<Rightarrow> cancelAppointment now' stamp' (appt_id a) userId st1))"

fun bookCancelCycles ::
  "(string \<times> int \<times> int \<times> int \<times> int \<times> string) list \<Rightarrow> string \<Rightarrow> string \<Rightarrow> string option
     \<Rightarrow> storage \<Rightarrow> (error + unit) \<times> storage" where
  "bookCancelCycles [] sid stid nts st = (Inr (), st)"
| "bookCancelCycles (c # cs) sid stid nts st =
     (case bookThenCancel c sid stid nts st of
        (Inl e, st1) \<Rightarrow> (Inl e, st1)
      | (Inr u, st1) \<Rightarrow> bookCancelCycles cs sid stid nts st1)"

section \<open>Example data\<close>

text \<open>
  Two students and a teacher; the teacher's slot1 with one seat, starting at
  200000000 ms and lasting an hour, with \<open>free\<close> seats available; the appointment a1 of
  student s1 on slot1.
\<close>

definition demoUsers :: "user list" where
  "demoUsers =
     [\<lparr>user_id = ''s1'', name = ''Alice'', role = STUDENT, email = ''alice@uni''\<rparr>,
      \<lparr>user_id = ''s2'', name = ''Bob'', role = STUDENT, email = ''bob@uni''\<rparr>,
      \<lparr>user_id = ''t1'', name = ''Dr Smith'', role = TEACHER, email = ''smith@uni''\<rparr>]"

definition demoSlot :: "int \<Rightarrow> slot" where
  "demoSlot free =
     \<lparr>slot_id = ''slot1'', teacherId = ''t1'', startISO = Some 200000000,
      endISO = Some 203600000, location = ''Room 1'', maxSeats = 1,
      availableSeats = free\<rparr>"

definition demoAppt :: "status \<Rightarrow> appointment" where
  "demoAppt s =
     \<lparr>appt_id = ''a1'', slotId = ''slot1'', studentId = ''s1'', status = s,
      appt_notes = None, createdAt = 0, cancelledAt = None\<rparr>"

text \<open>Before any booking; after a1 was booked; after a1 was booked and cancelled.\<close>

definition demoEmpty :: storage where
  "demoEmpty = \<lparr>users = demoUsers, slots = [demoSlot 1], appointments = []\<rparr>"

definition demoBooked :: storage where
  "demoBooked = \<lparr>users = demoUsers, slots = [demoSlot 0], appointments = [demoAppt BOOKED]\<rparr>"

definition demoCancelled :: storage where
  "demoCancelled =
     \<lparr>users = demoUsers, slots = [demoSlot 1], appointments = [demoAppt CANCELLED]\<rparr>"

text \<open>A second slot that overlaps slot1, while a1 is BOOKED.\<close>

definition demoSlot2 :: slot where
  "demoSlot2 =
     \<lparr>slot_id = ''slot2'', teacherId = ''t1'', startISO = Some 201800000,
      endISO = Some 205400000, location = ''Room 2'', maxSeats = 2,
      availableSeats = 2\<rparr>"

definition demoTwoSlots :: storage where
  "demoTwoSlots =
     \<lparr>users = demoUsers, slots = [demoSlot 0, demoSlot2], appointments = [demoAppt BOOKED]\<rparr>"

text \<open>A cancelled appointment whose slot has been deleted.\<close>

definition demoDangling :: storage where
  "demoDangling =
     \<lparr>users = demoUsers, slots = [demoSlot 1],
      appointments = [(demoAppt CANCELLED)\<lparr>slotId := ''gone''\<rparr>]\<rparr>"

text \<open>The data of a new slot for createSlot, and three book/cancel cycles.\<close>

definition demoSlotData :: slot where
  "demoSlotData =
     \<lparr>slot_id = [], teacherId = ''t1'', startISO = Some 300000000,
      endISO = Some 303600000, location = ''Room 3'', maxSeats = 3,
      availableSeats = 0\<rparr>"

definition demoCycles :: "(string \<times> int \<times> int \<times> int \<times> int \<times> string) list" where
  "demoCycles =
     [(''a1'', 0, 5, 10, 15, ''s1''),
      (''a2'', 20, 25, 30, 35, ''t1''),
      (''a3'', 40, 45, 50, 55, ''s1'')]"

text \<open>
  A slot with two seats, both BOOKED, by s1 and s2; a new slot with three free seats;
  updates that set maxSeats (lowered to 1, raised to 5) or availableSeats.
\<close>

definition demoTwoBooked :: storage where
  "demoTwoBooked =
     \<lparr>users = demoUsers, slots = [(demoSlot 0)\<lparr>maxSeats := 2\<rparr>],
      appointments = [demoAppt BOOKED,
                      (demoAppt BOOKED)\<lparr>appt_id := ''a2'', studentId := ''s2''\<rparr>]\<rparr>"

definition demoFresh :: storage where
  "demoFresh =
     \<lparr>users = demoUsers,
      slots = [demoSlotData\<lparr>slot_id := ''slot3'', availableSeats := 3\<rparr>],
      appointments = []\<rparr>"

definition demoSetFree :: "int \<Rightarrow> slotUpdates" where
  "demoSetFree n =
     \<lparr>upd_teacherId = None, upd_startISO = Absent, upd_endISO = Absent,
      upd_location = None, upd_maxSeats = None, upd_availableSeats = Some n\<rparr>"

definition demoSetMax :: "int \<Rightarrow> slotUpdates" where
  "demoSetMax m =
     \<lparr>upd_teacherId = None, upd_startISO = Absent, upd_endISO = Absent,
      upd_location = None, upd_maxSeats = Some m, upd_availableSeats = None\<rparr>"

text \<open>demoTwoBooked after a1 was marked attended.\<close>

definition demoOneAttended :: storage where
  "demoOneAttended =
     \<lparr>users = demoUsers, slots = [(demoSlot 0)\<lparr>maxSeats := 2\<rparr>],
      appointments = [demoAppt ATTENDED,
                      (demoAppt BOOKED)\<lparr>appt_id := ''a2'', studentId := ''s2''\<rparr>]\<rparr>"

section \<open>Lemmas about the helpers and the operations\<close>

lemma isBookingAllowed_iff:
  "isBookingAllowed (Some slotStart) now = (slotStart - now > 3600000)"
proof -
  have "(rat_of_int (slotStart - now) / 3600000 > 1) = (rat_of_int (slotStart - now) > 3600000)"
    by (simp add: field_simps)
  also have "\<dots> = (slotStart - now > 3600000)"
    by linarith
  finally show ?thesis
    by (simp add: isBookingAllowed_def hoursUntilSlot_def)
qed

lemma isWithinCancellationWindow_iff:
  "isWithinCancellationWindow (Some slotStart) now = (slotStart - now > 86400000)"
proof -
  have "(rat_of_int (slotStart - now) / 3600000 > 24) = (rat_of_int (slotStart - now) > 86400000)"
    by (simp add: field_simps)
  also have "\<dots> = (slotStart - now > 86400000)"
    by linarith
  finally show ?thesis
    by (simp add: isWithinCancellationWindow_def hoursUntilSlot_def)
qed

lemma findIndex_SomeD:
  "findIndex P xs = Some i \<Longrightarrow> i < length xs \<and> P (xs ! i) \<and> (\<forall>j<i. \<not> P (xs ! j))"
proof (induction xs arbitrary: i)
  case Nil
  then show ?case by simp
next
  case (Cons x xs)
  show ?case
  proof (cases "P x")
    case True
    with Cons.prems show ?thesis by simp
  next
    case False
    with Cons.prems obtain k where k: "findIndex P xs = Some k" "i = Suc k"
      by auto
    from Cons.IH [OF k(1)] False k(2) show ?thesis
      by (auto simp: less_Suc_eq_0_disj)
  qed
qed

lemma find_findIndex: "find P xs = map_option (\<lambda>i. xs ! i) (findIndex P xs)"
  by (induction xs) (auto simp: option.map_comp comp_def)

lemma findIndex_update:
  "findIndex P xs = Some i \<Longrightarrow> P y \<Longrightarrow> findIndex P (xs[i := y]) = Some i"
proof (induction xs arbitrary: i)
  case Nil
  then show ?case by simp
next
  case (Cons x xs)
  then show ?case
    by (cases "P x") auto
qed

lemma findIndex_append_fresh:
  "\<forall>x\<in>set xs. \<not> P x \<Longrightarrow> P y \<Longrightarrow> findIndex P (xs @ [y]) = Some (length xs)"
  by (induction xs) auto

lemma bookAppointment_InrD:
  assumes "bookAppointment newId now stamp sid stid nts st = (Inr a, st')"
  shows "\<exists>slot. find (\<lambda>s. slot_id s = sid) (slots st) = Some slot
           \<and> 0 < availableSeats slot
           \<and> isBookingAllowed (startISO slot) now
           \<and> a = \<lparr>appt_id = newId, slotId = sid, studentId = stid, status = BOOKED,
                  appt_notes = nts, createdAt = stamp, cancelledAt = None\<rparr>
           \<and> st' = st\<lparr>appointments := appointments st @ [a],
                      slots := storeSlot sid
                        (slot\<lparr>availableSeats := availableSeats slot - 1\<rparr>) (slots st)\<rparr>"
  using assms unfolding bookAppointment_def
  by (auto split: option.splits if_splits simp: Let_def)

lemma cancelAppointment_InrD:
  assumes "cancelAppointment now stamp appointmentId userId st = (Inr u, st')"
  shows "\<exists>i slot. findIndex (\<lambda>a. appt_id a = appointmentId) (appointments st) = Some i
           \<and> find (\<lambda>s. slot_id s = slotId (appointments st ! i)) (slots st) = Some slot
           \<and> st' = st\<lparr>appointments := (appointments st)
                        [i := (appointments st ! i)\<lparr>status := CANCELLED,
                                                    cancelledAt := Some stamp\<rparr>],
                      slots := storeSlot (slotId (appointments st ! i))
                        (slot\<lparr>availableSeats := availableSeats slot + 1\<rparr>) (slots st)\<rparr>"
  using assms unfolding cancelAppointment_def
  by (auto split: option.splits if_splits simp: Let_def)

lemma hasConflict_conflicting:
  "hasConflict slot (slots st)
     (filter (\<lambda>a. studentId a = stid \<and> status a = BOOKED) (appointments st))
   = conflicting st stid slot"
  by (auto simp: hasConflict_def conflicting_def list_ex_iff)

lemma find_student_None: 
  "(find (\<lambda>u. user_id u = stid \<and> role u = STUDENT) (users st) = None) = (\<not> validStudent st stid)"
  by (auto simp: find_None_iff validStudent_def)

lemma find_slot_None:
  "(find (\<lambda>s. slot_id s = sid) xs = None) = (sid \<notin> slot_id ` set xs)"
  by (auto simp: find_None_iff)

lemma storeSlot_found:
  "find (\<lambda>s. slot_id s = sid) xs = Some slot \<Longrightarrow>
   \<exists>i. findIndex (\<lambda>s. slot_id s = sid) xs = Some i \<and> xs ! i = slot
       \<and> storeSlot sid slot' xs = xs[i := slot']"
  by (auto simp: find_findIndex storeSlot_def)

lemmas demo_defs = demoUsers_def demoSlot_def demoAppt_def demoEmpty_def demoBooked_def
  demoCancelled_def

lemmas demo2_defs = demo_defs demoSlot2_def demoTwoSlots_def


lemma bookAppointment_found:
  assumes "validStudent st stid" and "find (\<lambda>s. slot_id s = sid) (slots st) = Some slot"
  shows "bookAppointment newId now stamp sid stid nts st =
     (if availableSeats slot \<le> 0 then (Inl SlotFull, st)
      else if \<not> isBookingAllowed (startISO slot) now then (Inl TooLateToBook, st)
      else if conflicting st stid slot then (Inl ConflictingAppointment, st)
      else (Inr \<lparr>appt_id = newId, slotId = sid, studentId = stid, status = BOOKED,
                 appt_notes = nts, createdAt = stamp, cancelledAt = None\<rparr>,
            st\<lparr>appointments := appointments st @
                   [\<lparr>appt_id = newId, slotId = sid, studentId = stid, status = BOOKED,
                     appt_notes = nts, createdAt = stamp, cancelledAt = None\<rparr>],
                slots := storeSlot sid
                   (slot\<lparr>availableSeats := availableSeats slot - 1\<rparr>) (slots st)\<rparr>))"
proof -
  from assms(1) obtain u where
    "find (\<lambda>u. user_id u = stid \<and> role u = STUDENT) (users st) = Some u"
    using find_student_None [of stid st] by auto
  with assms(2) show ?thesis
    by (simp add: bookAppointment_def hasConflict_conflicting Let_def)
qed

lemma cancelAppointment_found:
  assumes "findIndex (\<lambda>a. appt_id a = appointmentId) (appointments st) = Some i"
    and "find (\<lambda>s. slot_id s = slotId (appointments st ! i)) (slots st) = Some slot"
  shows "cancelAppointment now stamp appointmentId userId st =
     (if studentId (appointments st ! i) \<noteq> userId \<and> teacherId slot \<noteq> userId
      then (Inl NotAuthorized, st)
      else if studentId (appointments st ! i) = userId \<and>
              \<not> isWithinCancellationWindow (startISO slot) now
      then (Inl TooLateToCancel, st)
      else (Inr (),
            st\<lparr>appointments := (appointments st)
                   [i := (appointments st ! i)\<lparr>status := CANCELLED,
                                               cancelledAt := Some stamp\<rparr>],
                slots := storeSlot (slotId (appointments st ! i))
                   (slot\<lparr>availableSeats := availableSeats slot + 1\<rparr>) (slots st)\<rparr>))"
  using assms by (simp add: cancelAppointment_def Let_def)


section \<open>Counting and updating\<close>

lemma length_filter_update:
  "i < length xs \<Longrightarrow>
   length (filter P (xs[i := y])) + (if P (xs ! i) then 1 else 0)
     = length (filter P xs) + (if P y then 1 else 0)"
proof (induction xs arbitrary: i)
  case Nil
  then show ?case by simp
next
  case (Cons x xs)
  show ?case
  proof (cases i)
    case 0
    then show ?thesis by simp
  next
    case (Suc k)
    with Cons.prems have "k < length xs" by simp
    from Cons.IH [OF this] Suc show ?thesis by simp
  qed
qed

lemma bookedCount_append:
  "bookedCount sid (xs @ [a])
     = bookedCount sid xs + (if slotId a = sid \<and> status a = BOOKED then 1 else 0)"
  by (simp add: bookedCount_def)

lemma bookedCount_unbook:
  assumes "i < length xs" and "status (xs ! i) = BOOKED"
    and "slotId a' = slotId (xs ! i)" and "status a' \<noteq> BOOKED"
  shows "bookedCount sid (xs[i := a']) + (if slotId (xs ! i) = sid then 1 else 0)
           = bookedCount sid xs"
  using length_filter_update [OF assms(1), of "\<lambda>a. slotId a = sid \<and> status a = BOOKED" a']
    assms(2-4)
  by (simp add: bookedCount_def split: if_splits)

lemma statusOf_nth:
  "findIndex (\<lambda>a. appt_id a = appointmentId) (appointments st) = Some i \<Longrightarrow>
   statusOf appointmentId st = Some (status (appointments st ! i))"
  by (simp add: statusOf_def find_findIndex)

lemma set_update_cases:
  "S \<in> set (xs[i := y]) \<Longrightarrow> S = y \<or> S \<in> set xs"
  using set_update_subset_insert [of xs i y] by auto

lemma update_other_ids:
  assumes d: "distinct (map slot_id xs)" and i: "i < length xs"
    and S: "S \<in> set (xs[i := y])" and ne: "S \<noteq> y"
  shows "S \<in> set xs \<and> slot_id S \<noteq> slot_id (xs ! i)"
proof -
  from S obtain j where j: "j < length xs" "(xs[i := y]) ! j = S"
    by (auto simp: in_set_conv_nth)
  with ne i have ji: "j \<noteq> i" by auto
  with j have Sj: "S = xs ! j" by simp
  have "(map slot_id xs ! j = map slot_id xs ! i) = (j = i)"
    using d j(1) i by (intro nth_eq_iff_index_eq) simp_all
  with j(1) i ji Sj show ?thesis by simp
qed

lemma map_slot_id_update:
  "i < length xs \<Longrightarrow> slot_id y = slot_id (xs ! i) \<Longrightarrow>
   map slot_id (xs[i := y]) = map slot_id xs"
  by (simp add: map_update list_update_same_conv)

section \<open>What a successful operation writes\<close>

lemma createSlot_InrD:
  assumes "createSlot newId slotData st = (Inr S, st')"
  shows "S = slotData\<lparr>slot_id := newId, availableSeats := maxSeats slotData\<rparr>
         \<and> st' = st\<lparr>slots := slots st @ [S]\<rparr>"
  using assms unfolding createSlot_def
  by (auto split: option.splits if_splits simp: Let_def)

lemma markAttended_InrD:
  assumes "markAttended appointmentId st = (Inr u, st')"
  shows "\<exists>i. findIndex (\<lambda>a. appt_id a = appointmentId) (appointments st) = Some i
           \<and> st' = st\<lparr>appointments := (appointments st)
                        [i := (appointments st ! i)\<lparr>status := ATTENDED\<rparr>]\<rparr>"
  using assms unfolding markAttended_def
  by (auto split: option.splits)

lemma bookAppointment_writes:
  assumes "bookAppointment newId now stamp sid stid nts st = (Inr a, st')"
  obtains slot i where
    "findIndex (\<lambda>s. slot_id s = sid) (slots st) = Some i"
    "i < length (slots st)" "slots st ! i = slot" "slot_id slot = sid"
    "0 < availableSeats slot"
    "slotId a = sid" "status a = BOOKED" "appt_id a = newId"
    "appointments st' = appointments st @ [a]"
    "slots st' = (slots st)[i := slot\<lparr>availableSeats := availableSeats slot - 1\<rparr>]"
    "users st' = users st"
proof -
  from bookAppointment_InrD [OF assms] obtain slot where
    s: "find (\<lambda>s. slot_id s = sid) (slots st) = Some slot" "0 < availableSeats slot"
    and a: "a = \<lparr>appt_id = newId, slotId = sid, studentId = stid, status = BOOKED,
                  appt_notes = nts, createdAt = stamp, cancelledAt = None\<rparr>"
    and st': "st' = st\<lparr>appointments := appointments st @ [a],
                      slots := storeSlot sid
                        (slot\<lparr>availableSeats := availableSeats slot - 1\<rparr>) (slots st)\<rparr>"
    by blast
  from storeSlot_found [OF s(1), of "slot\<lparr>availableSeats := availableSeats slot - 1\<rparr>"]
  obtain i where i: "findIndex (\<lambda>s. slot_id s = sid) (slots st) = Some i"
    "slots st ! i = slot"
    "storeSlot sid (slot\<lparr>availableSeats := availableSeats slot - 1\<rparr>) (slots st)
       = (slots st)[i := slot\<lparr>availableSeats := availableSeats slot - 1\<rparr>]"
    by blast
  from findIndex_SomeD [OF i(1)] i(2) have "i < length (slots st)" "slot_id slot = sid"
    by auto
  with i s a st' that [of i slot] show thesis by simp
qed

lemma cancelAppointment_writes:
  assumes "cancelAppointment now stamp appointmentId userId st = (Inr u, st')"
  obtains i j slot where
    "findIndex (\<lambda>a. appt_id a = appointmentId) (appointments st) = Some i"
    "i < length (appointments st)"
    "j < length (slots st)" "slots st ! j = slot"
    "slot_id slot = slotId (appointments st ! i)"
    "findIndex (\<lambda>s. slot_id s = slotId (appointments st ! i)) (slots st) = Some j"
    "appointments st' = (appointments st)
       [i := (appointments st ! i)\<lparr>status := CANCELLED, cancelledAt := Some stamp\<rparr>]"
    "slots st' = (slots st)[j := slot\<lparr>availableSeats := availableSeats slot + 1\<rparr>]"
    "users st' = users st"
proof -
  from cancelAppointment_InrD [OF assms] obtain i slot where
    i: "findIndex (\<lambda>a. appt_id a = appointmentId) (appointments st) = Some i"
    and s: "find (\<lambda>s. slot_id s = slotId (appointments st ! i)) (slots st) = Some slot"
    and st': "st' = st\<lparr>appointments := (appointments st)
                        [i := (appointments st ! i)\<lparr>status := CANCELLED,
                                                    cancelledAt := Some stamp\<rparr>],
                      slots := storeSlot (slotId (appointments st ! i))
                        (slot\<lparr>availableSeats := availableSeats slot + 1\<rparr>) (slots st)\<rparr>"
    by blast
  from storeSlot_found [OF s, of "slot\<lparr>availableSeats := availableSeats slot + 1\<rparr>"]
  obtain j where j: "findIndex (\<lambda>s. slot_id s = slotId (appointments st ! i)) (slots st) = Some j"
    "slots st ! j = slot"
    "storeSlot (slotId (appointments st ! i))
       (slot\<lparr>availableSeats := availableSeats slot + 1\<rparr>) (slots st)
       = (slots st)[j := slot\<lparr>availableSeats := availableSeats slot + 1\<rparr>]"
    by blast
  from findIndex_SomeD [OF i] have "i < length (appointments st)" by simp
  moreover from findIndex_SomeD [OF j(1)] j(2)
  have "j < length (slots st)" "slot_id slot = slotId (appointments st ! i)"
    by auto
  ultimately show thesis
    using i j st' that [of i j slot] by simp
qed

section \<open>The seat equation under the operations\<close>




lemma distinct_ids_kept:
  "i < length xs \<Longrightarrow> slot_id y = slot_id (xs ! i) \<Longrightarrow>
   distinct (map slot_id (xs[i := y])) = distinct (map slot_id xs)"
  by (simp add: map_slot_id_update)

section \<open>Booking and then cancelling\<close>

lemma round_trip_step:
  assumes b: "bookAppointment newId now stamp sid stid nts st = (Inr a, st1)"
    and fresh: "newId \<notin> appt_id ` set (appointments st)"
    and c: "cancelAppointment now' stamp' (appt_id a) userId st1 = (Inr u, st2)"
  shows "slots st2 = slots st"
    and "map appt_id (appointments st2) = map appt_id (appointments st) @ [newId]"
proof -
  from b obtain slot i where
    i: "findIndex (\<lambda>s. slot_id s = sid) (slots st) = Some i"
      "i < length (slots st)" "slots st ! i = slot" "slot_id slot = sid"
    and a: "slotId a = sid" "appt_id a = newId"
    and w1: "appointments st1 = appointments st @ [a]"
      "slots st1 = (slots st)[i := slot\<lparr>availableSeats := availableSeats slot - 1\<rparr>]"
    by (rule bookAppointment_writes)
  from c obtain i' j slot' where
    i': "findIndex (\<lambda>x. appt_id x = appt_id a) (appointments st1) = Some i'"
    and j: "slots st1 ! j = slot'"
      "findIndex (\<lambda>s. slot_id s = slotId (appointments st1 ! i')) (slots st1) = Some j"
    and w2: "appointments st2 = (appointments st1)
       [i' := (appointments st1 ! i')\<lparr>status := CANCELLED, cancelledAt := Some stamp'\<rparr>]"
      "slots st2 = (slots st1)[j := slot'\<lparr>availableSeats := availableSeats slot' + 1\<rparr>]"
    by (rule cancelAppointment_writes)
  from fresh have "\<forall>x\<in>set (appointments st). appt_id x \<noteq> newId"
    by blast
  then have "\<forall>x\<in>set (appointments st). appt_id x \<noteq> appt_id a"
    by (simp add: a(2))
  then have "findIndex (\<lambda>x. appt_id x = appt_id a) (appointments st @ [a])
      = Some (length (appointments st))"
    by (intro findIndex_append_fresh) simp_all
  with i' w1(1) have i'_eq: "i' = length (appointments st)" by simp
  with w1(1) have hit: "appointments st1 ! i' = a" by simp
  from findIndex_update [OF i(1), of "slot\<lparr>availableSeats := availableSeats slot - 1\<rparr>"] i(4)
  have "findIndex (\<lambda>s. slot_id s = sid) (slots st1) = Some i"
    by (simp add: w1(2))
  with j(2) hit a(1) have j_eq: "j = i" by simp
  with j(1) w1(2) i(2) have "slot' = slot\<lparr>availableSeats := availableSeats slot - 1\<rparr>"
    by simp
  with w2(2) w1(2) j_eq i(3) show "slots st2 = slots st"
    by (simp add: list_update_same_conv [OF i(2)])
  from w2(1) w1(1) i'_eq hit a(2)
  show "map appt_id (appointments st2) = map appt_id (appointments st) @ [newId]"
    by simp
qed

lemma bookThenCancel_step:
  assumes "bookThenCancel c sid stid nts st = (Inr u, st2)"
    and "fst c \<notin> appt_id ` set (appointments st)"
  shows "slots st2 = slots st"
    and "map appt_id (appointments st2) = map appt_id (appointments st) @ [fst c]"
proof -
  obtain newId now stamp now' stamp' userId where
    c: "c = (newId, now, stamp, now', stamp', userId)"
    by (cases c) auto
  from assms(1) c obtain a st1 where
    b: "bookAppointment newId now stamp sid stid nts st = (Inr a, st1)"
    and k: "cancelAppointment now' stamp' (appt_id a) userId st1 = (Inr u, st2)"
    by (auto simp: bookThenCancel_def split: prod.splits sum.splits)
  from assms(2) c have f: "newId \<notin> appt_id ` set (appointments st)" by simp
  from round_trip_step [OF b f k] c
  show "slots st2 = slots st"
    and "map appt_id (appointments st2) = map appt_id (appointments st) @ [fst c]"
    by simp_all
qed

lemma bookCancelCycles_slots:
  "distinct (map fst cs) \<Longrightarrow>
   fst ` set cs \<inter> appt_id ` set (appointments st) = {} \<Longrightarrow>
   bookCancelCycles cs sid stid nts st = (Inr u, st') \<Longrightarrow>
   slots st' = slots st"
proof (induction cs arbitrary: st)
  case Nil
  then show ?case by simp
next
  case (Cons c cs)
  from Cons.prems(3) obtain v st1 where
    one: "bookThenCancel c sid stid nts st = (Inr v, st1)"
    and more: "bookCancelCycles cs sid stid nts st1 = (Inr u, st')"
    by (auto split: prod.splits sum.splits)
  from Cons.prems(2) have f: "fst c \<notin> appt_id ` set (appointments st)"
    by auto
  note step = bookThenCancel_step [OF one f]
  have "appt_id ` set (appointments st1) = set (map appt_id (appointments st1))"
    by simp
  also have "\<dots> = insert (fst c) (appt_id ` set (appointments st))"
    by (simp add: step(2))
  finally have ids: "appt_id ` set (appointments st1)
      = insert (fst c) (appt_id ` set (appointments st))" .
  from Cons.prems(1,2) have "fst ` set cs \<inter> appt_id ` set (appointments st1) = {}"
    unfolding ids by auto
  moreover from Cons.prems(1) have "distinct (map fst cs)" by simp
  ultimately have "slots st' = slots st1"
    using more by (intro Cons.IH)
  with step(1) show ?case by simp
qed

section \<open>The seat bounds under the operations\<close>

lemma updateSlot_InrD:
  assumes "updateSlot sid updates st = (Inr U, st')"
  shows "\<exists>i. findIndex (\<lambda>s. slot_id s = sid) (slots st) = Some i
           \<and> i < length (slots st)
           \<and> U = spread (slots st ! i) updates
           \<and> st' = st\<lparr>slots := (slots st)[i := spread (slots st ! i) updates]\<rparr>"
proof -
  from assms obtain i where i: "findIndex (\<lambda>s. slot_id s = sid) (slots st) = Some i"
    by (auto simp: updateSlot_def split: option.splits)
  from findIndex_SomeD [OF i] have "i < length (slots st)" by simp
  with assms i show ?thesis
    by (auto simp: updateSlot_def Let_def split: if_splits)
qed

lemma deleteSlot_InrD:
  assumes "deleteSlot sid st = (Inr u, st')"
  shows "\<exists>i. findIndex (\<lambda>s. slot_id s = sid) (slots st) = Some i
           \<and> st' = st\<lparr>slots := take i (slots st) @ drop (Suc i) (slots st)\<rparr>"
  using assms unfolding deleteSlot_def
  by (auto split: option.splits if_splits)

lemma set_without_index: "set (take i xs @ drop (Suc i) xs) \<subseteq> set xs"
  using set_take_subset [of i xs] set_drop_subset [of "Suc i" xs] by auto

lemma distinct_without_index:
  assumes "distinct (map f xs)"
  shows "distinct (map f (take i xs @ drop (Suc i) xs))"
proof -
  let ?ys = "map f xs"
  have "set (take i ?ys) \<inter> set (drop (Suc i) ?ys) = {}"
    using assms by (intro set_take_disj_set_drop_if_distinct) simp_all
  with assms have "distinct (take i ?ys @ drop (Suc i) ?ys)"
    by simp
  then show ?thesis
    by (simp add: take_map drop_map)
qed

lemma slot_id_spread: "slot_id (spread slot updates) = slot_id slot"
  by (simp add: spread_def)

lemma bookedCount_update_le:
  assumes "i < length xs" and "status a' \<noteq> BOOKED"
  shows "bookedCount sid (xs[i := a']) \<le> bookedCount sid xs"
  using length_filter_update [OF assms(1), of "\<lambda>a. slotId a = sid \<and> status a = BOOKED" a']
    assms(2)
  by (simp add: bookedCount_def split: if_splits)

lemma seatsBounded_range: "seatsBounded st \<Longrightarrow> seatsInRange st"
  by (fastforce simp: seatsBounded_def seatsInRange_def)

lemma createSlot_bounded:
  assumes inv: "seatsBounded st"
    and ok: "createSlot newId slotData st = (Inr S, st')"
    and m: "0 \<le> maxSeats slotData"
    and fresh: "\<forall>a\<in>set (appointments st). status a = BOOKED \<longrightarrow> slotId a \<noteq> newId"
  shows "seatsBounded st'"
proof -
  from createSlot_InrD [OF ok] m have S: "slot_id S = newId" "availableSeats S = maxSeats S"
    "0 \<le> maxSeats S"
    and st': "slots st' = slots st @ [S]" "appointments st' = appointments st"
    by auto
  from fresh have "filter (\<lambda>a. slotId a = newId \<and> status a = BOOKED) (appointments st) = []"
    by (auto simp: filter_empty_conv)
  then have "bookedCount newId (appointments st) = 0"
    by (simp add: bookedCount_def)
  with inv S st' show ?thesis
    by (auto simp: seatsBounded_def)
qed

lemma bookAppointment_bounded:
  assumes inv: "seatsBounded st" and d: "distinct (map slot_id (slots st))"
    and ok: "bookAppointment newId now stamp sid stid nts st = (Inr a, st')"
  shows "seatsBounded st'"
proof -
  from ok obtain slot i where
    i: "i < length (slots st)" "slots st ! i = slot" "slot_id slot = sid"
    and pos: "0 < availableSeats slot"
    and a: "slotId a = sid" "status a = BOOKED"
    and w: "appointments st' = appointments st @ [a]"
      "slots st' = (slots st)[i := slot\<lparr>availableSeats := availableSeats slot - 1\<rparr>]"
    by (rule bookAppointment_writes)
  let ?slot' = "slot\<lparr>availableSeats := availableSeats slot - 1\<rparr>"
  from i have mem: "slot \<in> set (slots st)" by auto
  show ?thesis
    unfolding seatsBounded_def
  proof
    fix S assume S: "S \<in> set (slots st')"
    show "0 \<le> availableSeats S \<and>
      availableSeats S + int (bookedCount (slot_id S) (appointments st')) \<le> maxSeats S"
    proof (cases "S = ?slot'")
      case True
      from inv mem have "availableSeats slot
          + int (bookedCount (slot_id slot) (appointments st)) \<le> maxSeats slot"
        by (simp add: seatsBounded_def)
      with True pos i(3) a w(1) show ?thesis
        by (simp add: bookedCount_append)
    next
      case False
      from update_other_ids [OF d i(1) _ False] S w(2) i(2,3)
      have "S \<in> set (slots st)" "slot_id S \<noteq> sid" by auto
      with inv a w(1) show ?thesis
        by (simp add: seatsBounded_def bookedCount_append)
    qed
  qed
qed

lemma markAttended_bounded:
  assumes inv: "seatsBounded st" and ok: "markAttended appointmentId st = (Inr u, st')"
  shows "seatsBounded st'"
proof -
  from markAttended_InrD [OF ok] obtain k where
    k: "findIndex (\<lambda>a. appt_id a = appointmentId) (appointments st) = Some k"
    and st': "st' = st\<lparr>appointments := (appointments st)
                      [k := (appointments st ! k)\<lparr>status := ATTENDED\<rparr>]\<rparr>"
    by blast
  from findIndex_SomeD [OF k] have len: "k < length (appointments st)" by simp
  have le: "bookedCount sid (appointments st') \<le> bookedCount sid (appointments st)" for sid
    using bookedCount_update_le [OF len, of "(appointments st ! k)\<lparr>status := ATTENDED\<rparr>" sid]
      st'
    by simp
  show ?thesis
    unfolding seatsBounded_def
  proof
    fix S assume "S \<in> set (slots st')"
    with st' have "S \<in> set (slots st)" by simp
    with inv have "0 \<le> availableSeats S" "availableSeats S
        + int (bookedCount (slot_id S) (appointments st)) \<le> maxSeats S"
      by (simp_all add: seatsBounded_def)
    with le [of "slot_id S"] show "0 \<le> availableSeats S \<and>
      availableSeats S + int (bookedCount (slot_id S) (appointments st')) \<le> maxSeats S"
      by simp
  qed
qed

lemma cancelAppointment_bounded:
  assumes inv: "seatsBounded st"
    and ok: "cancelAppointment now stamp appointmentId userId st = (Inr u, st')"
    and booked: "statusOf appointmentId st = Some BOOKED"
  shows "seatsBounded st'"
proof -
  from ok obtain i j slot where
    i: "findIndex (\<lambda>a. appt_id a = appointmentId) (appointments st) = Some i"
      "i < length (appointments st)"
    and j: "j < length (slots st)" "slots st ! j = slot"
      "slot_id slot = slotId (appointments st ! i)"
    and w: "appointments st' = (appointments st)
       [i := (appointments st ! i)\<lparr>status := CANCELLED, cancelledAt := Some stamp\<rparr>]"
      "slots st' = (slots st)[j := slot\<lparr>availableSeats := availableSeats slot + 1\<rparr>]"
    by (rule cancelAppointment_writes)
  let ?slot' = "slot\<lparr>availableSeats := availableSeats slot + 1\<rparr>"
  let ?a' = "(appointments st ! i)\<lparr>status := CANCELLED, cancelledAt := Some stamp\<rparr>"
  from booked statusOf_nth [OF i(1)] have b: "status (appointments st ! i) = BOOKED"
    by simp
  have count: "bookedCount k ((appointments st)[i := ?a'])
      + (if slotId (appointments st ! i) = k then 1 else 0)
      = bookedCount k (appointments st)" for k
    using bookedCount_unbook [OF i(2) b, of ?a' k] by simp
  from j have mem: "slot \<in> set (slots st)" by auto
  show ?thesis
    unfolding seatsBounded_def
  proof
    fix S assume S: "S \<in> set (slots st')"
    from S w(2) have "S = ?slot' \<or> S \<in> set (slots st)"
      by (auto dest: set_update_cases)
    then show "0 \<le> availableSeats S \<and>
      availableSeats S + int (bookedCount (slot_id S) (appointments st')) \<le> maxSeats S"
    proof
      assume new: "S = ?slot'"
      from inv mem have "0 \<le> availableSeats slot" "availableSeats slot
          + int (bookedCount (slot_id slot) (appointments st)) \<le> maxSeats slot"
        by (simp_all add: seatsBounded_def)
      with new j(3) w(1) count [of "slot_id slot"] show ?thesis
        by simp
    next
      assume old: "S \<in> set (slots st)"
      with inv have "0 \<le> availableSeats S" "availableSeats S
          + int (bookedCount (slot_id S) (appointments st)) \<le> maxSeats S"
        by (simp_all add: seatsBounded_def)
      with w(1) count [of "slot_id S"] show ?thesis
        by (simp split: if_splits)
    qed
  qed
qed

lemma deleteSlot_bounded:
  assumes inv: "seatsBounded st" and ok: "deleteSlot sid st = (Inr u, st')"
  shows "seatsBounded st'"
proof -
  from deleteSlot_InrD [OF ok] obtain i where
    "st' = st\<lparr>slots := take i (slots st) @ drop (Suc i) (slots st)\<rparr>"
    by blast
  with inv set_without_index [of i "slots st"] show ?thesis
    by (auto simp: seatsBounded_def)
qed

lemma updateSlot_bounded:
  assumes inv: "seatsBounded st" and ok: "updateSlot sid updates st = (Inr U, st')"
    and avail: "upd_availableSeats updates = None"
    and raise: "\<forall>m. upd_maxSeats updates = Some m \<longrightarrow>
                  (\<forall>old\<in>set (slots st). slot_id old = sid \<longrightarrow> maxSeats old \<le> m)"
  shows "seatsBounded st'"
proof -
  from updateSlot_InrD [OF ok] obtain i where
    i: "findIndex (\<lambda>s. slot_id s = sid) (slots st) = Some i" "i < length (slots st)"
    and st': "st' = st\<lparr>slots := (slots st)[i := spread (slots st ! i) updates]\<rparr>"
    by blast
  let ?old = "slots st ! i"
  from i have mem: "?old \<in> set (slots st)" by simp
  from findIndex_SomeD [OF i(1)] have id: "slot_id ?old = sid" by simp
  from raise mem id have max: "maxSeats ?old \<le> maxSeats (spread ?old updates)"
    by (cases "upd_maxSeats updates") (simp_all add: spread_def)
  from avail have av: "availableSeats (spread ?old updates) = availableSeats ?old"
    by (simp add: spread_def)
  from inv mem have "0 \<le> availableSeats ?old" "availableSeats ?old
      + int (bookedCount (slot_id ?old) (appointments st)) \<le> maxSeats ?old"
    by (simp_all add: seatsBounded_def)
  with max av have new: "0 \<le> availableSeats (spread ?old updates)"
    "availableSeats (spread ?old updates)
      + int (bookedCount (slot_id (spread ?old updates)) (appointments st))
      \<le> maxSeats (spread ?old updates)"
    by (simp_all add: slot_id_spread)
  show ?thesis
    unfolding seatsBounded_def
  proof
    fix S assume "S \<in> set (slots st')"
    with st' have "S = spread ?old updates \<or> S \<in> set (slots st)"
      by (auto dest: set_update_cases)
    with new inv st' show "0 \<le> availableSeats S \<and>
      availableSeats S + int (bookedCount (slot_id S) (appointments st')) \<le> maxSeats S"
      by (auto simp: seatsBounded_def)
  qed
qed

lemma createSlot_range:
  assumes "seatsInRange st" and ok: "createSlot newId slotData st = (Inr S, st')"
    and m: "0 \<le> maxSeats slotData"
  shows "seatsInRange st'"
proof -
  from createSlot_InrD [OF ok] m have "availableSeats S = maxSeats S" "0 \<le> maxSeats S"
    "slots st' = slots st @ [S]"
    by auto
  with assms(1) show ?thesis by (auto simp: seatsInRange_def)
qed

lemma bookAppointment_range:
  assumes rng: "seatsInRange st"
    and ok: "bookAppointment newId now stamp sid stid nts st = (Inr a, st')"
  shows "seatsInRange st'"
proof -
  from ok obtain slot i where i: "i < length (slots st)" "slots st ! i = slot"
    and pos: "0 < availableSeats slot"
    and w: "slots st' = (slots st)[i := slot\<lparr>availableSeats := availableSeats slot - 1\<rparr>]"
    by (rule bookAppointment_writes)
  from i have "slot \<in> set (slots st)" by auto
  with rng have "availableSeats slot \<le> maxSeats slot"
    by (simp add: seatsInRange_def)
  with pos rng w show ?thesis
    by (auto simp: seatsInRange_def dest!: set_update_cases)
qed

lemma markAttended_range:
  assumes "seatsInRange st" and ok: "markAttended appointmentId st = (Inr u, st')"
  shows "seatsInRange st'"
  using markAttended_InrD [OF ok] assms(1) by (auto simp: seatsInRange_def)

lemma deleteSlot_range:
  assumes "seatsInRange st" and ok: "deleteSlot sid st = (Inr u, st')"
  shows "seatsInRange st'"
proof -
  from deleteSlot_InrD [OF ok] obtain i where
    "st' = st\<lparr>slots := take i (slots st) @ drop (Suc i) (slots st)\<rparr>"
    by blast
  with assms(1) set_without_index [of i "slots st"] show ?thesis
    by (auto simp: seatsInRange_def)
qed

lemma updateSlot_range:
  assumes rng: "seatsInRange st" and ok: "updateSlot sid updates st = (Inr U, st')"
    and avail: "upd_availableSeats updates = None"
    and raise: "\<forall>m. upd_maxSeats updates = Some m \<longrightarrow>
                  (\<forall>old\<in>set (slots st). slot_id old = sid \<longrightarrow> maxSeats old \<le> m)"
  shows "seatsInRange st'"
proof -
  from updateSlot_InrD [OF ok] obtain i where
    i: "findIndex (\<lambda>s. slot_id s = sid) (slots st) = Some i" "i < length (slots st)"
    and st': "st' = st\<lparr>slots := (slots st)[i := spread (slots st ! i) updates]\<rparr>"
    by blast
  let ?old = "slots st ! i"
  from i have mem: "?old \<in> set (slots st)" by simp
  from findIndex_SomeD [OF i(1)] have id: "slot_id ?old = sid" by simp
  from raise mem id have max: "maxSeats ?old \<le> maxSeats (spread ?old updates)"
    by (cases "upd_maxSeats updates") (simp_all add: spread_def)
  from avail have av: "availableSeats (spread ?old updates) = availableSeats ?old"
    by (simp add: spread_def)
  from rng mem have "0 \<le> availableSeats ?old" "availableSeats ?old \<le> maxSeats ?old"
    by (simp_all add: seatsInRange_def)
  with max av have "0 \<le> availableSeats (spread ?old updates)"
    "availableSeats (spread ?old updates) \<le> maxSeats (spread ?old updates)"
    by simp_all
  with rng st' show ?thesis
    by (auto simp: seatsInRange_def dest!: set_update_cases)
qed

lemma distinct_ids_after:
  assumes d: "distinct (map slot_id (slots st))"
  shows "createSlot newId slotData st = (Inr S, st') \<Longrightarrow>
           newId \<notin> slot_id ` set (slots st) \<Longrightarrow> distinct (map slot_id (slots st'))"
    and "bookAppointment newId now stamp sid stid nts st = (Inr a, st') \<Longrightarrow>
           distinct (map slot_id (slots st'))"
    and "cancelAppointment now stamp appointmentId userId st = (Inr u, st') \<Longrightarrow>
           distinct (map slot_id (slots st'))"
    and "markAttended appointmentId st = (Inr u, st') \<Longrightarrow>
           distinct (map slot_id (slots st'))"
    and "deleteSlot sid st = (Inr u, st') \<Longrightarrow> distinct (map slot_id (slots st'))"
    and "updateSlot sid updates st = (Inr U, st') \<Longrightarrow> distinct (map slot_id (slots st'))"
proof -
  show "distinct (map slot_id (slots st'))"
    if ok: "createSlot newId slotData st = (Inr S, st')"
      and f: "newId \<notin> slot_id ` set (slots st)"
    using createSlot_InrD [OF ok] d f by auto
  show "distinct (map slot_id (slots st'))"
    if ok: "bookAppointment newId now stamp sid stid nts st = (Inr a, st')"
  proof -
    from ok obtain slot i where "i < length (slots st)" "slots st ! i = slot"
      "slots st' = (slots st)[i := slot\<lparr>availableSeats := availableSeats slot - 1\<rparr>]"
      by (rule bookAppointment_writes)
    with d show ?thesis by (simp add: distinct_ids_kept)
  qed
  show "distinct (map slot_id (slots st'))"
    if ok: "cancelAppointment now stamp appointmentId userId st = (Inr u, st')"
  proof -
    from ok obtain j slot where "j < length (slots st)" "slots st ! j = slot"
      "slots st' = (slots st)[j := slot\<lparr>availableSeats := availableSeats slot + 1\<rparr>]"
      by (rule cancelAppointment_writes)
    with d show ?thesis by (simp add: distinct_ids_kept)
  qed
  show "distinct (map slot_id (slots st'))"
    if ok: "markAttended appointmentId st = (Inr u, st')"
    using markAttended_InrD [OF ok] d by auto
  show "distinct (map slot_id (slots st'))" if ok: "deleteSlot sid st = (Inr u, st')"
    using deleteSlot_InrD [OF ok] distinct_without_index [OF d] by auto
  show "distinct (map slot_id (slots st'))"
    if ok: "updateSlot sid updates st = (Inr U, st')"
  proof -
    from updateSlot_InrD [OF ok] obtain i where "i < length (slots st)"
      "slots st' = (slots st)[i := spread (slots st ! i) updates]"
      by auto
    with d show ?thesis by (simp add: distinct_ids_kept slot_id_spread)
  qed
qed

lemma updateSlot_bounded_written:
  assumes inv: "seatsBounded st" and ok: "updateSlot sid updates st = (Inr U, st')"
    and new: "0 \<le> availableSeats U"
      "availableSeats U + int (bookedCount sid (appointments st)) \<le> maxSeats U"
  shows "seatsBounded st'"
proof -
  from updateSlot_InrD [OF ok] obtain i where
    i: "findIndex (\<lambda>s. slot_id s = sid) (slots st) = Some i" "i < length (slots st)"
    and U: "U = spread (slots st ! i) updates"
    and st': "st' = st\<lparr>slots := (slots st)[i := spread (slots st ! i) updates]\<rparr>"
    by blast
  from findIndex_SomeD [OF i(1)] U have id: "slot_id U = sid"
    by (simp add: slot_id_spread)
  show ?thesis
    unfolding seatsBounded_def
  proof
    fix S assume "S \<in> set (slots st')"
    with st' U have "S = U \<or> S \<in> set (slots st)"
      by (auto dest: set_update_cases)
    with new id inv st' show "0 \<le> availableSeats S \<and>
      availableSeats S + int (bookedCount (slot_id S) (appointments st')) \<le> maxSeats S"
      by (auto simp: seatsBounded_def)
  qed
qed

lemma updateSlot_range_written:
  assumes rng: "seatsInRange st" and ok: "updateSlot sid updates st = (Inr U, st')"
    and new: "0 \<le> availableSeats U" "availableSeats U \<le> maxSeats U"
  shows "seatsInRange st'"
proof -
  from updateSlot_InrD [OF ok] obtain i where
    "U = spread (slots st ! i) updates"
    "st' = st\<lparr>slots := (slots st)[i := spread (slots st ! i) updates]\<rparr>"
    by blast
  with rng new show ?thesis
    by (auto simp: seatsInRange_def dest!: set_update_cases)
qed

section \<open>The claims\<close>







text \<open>
  C3. bookAppointment validates in a fixed order, the first failing check giving the
  error: the student id resolves to a user of role STUDENT (InvalidStudent), the slot
  exists (SlotNotFound), it has a free seat (SlotFull), the booking window is open
  (TooLateToBook), no BOOKED appointment of the student lies on an overlapping slot
  (ConflictingAppointment). On success the new appointment is BOOKED and appended, and
  the slot's availableSeats is one less.
\<close>

theorem bookAppointment_ordered_validation:
  "(\<not> validStudent st stid \<longrightarrow>
      bookAppointment newId now stamp sid stid nts st = (Inl InvalidStudent, st))
   \<and> (validStudent st stid \<and> sid \<notin> slot_id ` set (slots st) \<longrightarrow>
      bookAppointment newId now stamp sid stid nts st = (Inl SlotNotFound, st))
   \<and> (validStudent st stid \<and> find (\<lambda>s. slot_id s = sid) (slots st) = Some slot \<longrightarrow>
        (availableSeats slot \<le> 0 \<longrightarrow>
           bookAppointment newId now stamp sid stid nts st = (Inl SlotFull, st))
      \<and> (0 < availableSeats slot \<and> \<not> isBookingAllowed (startISO slot) now \<longrightarrow>
           bookAppointment newId now stamp sid stid nts st = (Inl TooLateToBook, st))
      \<and> (0 < availableSeats slot \<and> isBookingAllowed (startISO slot) now
           \<and> conflicting st stid slot \<longrightarrow>
           bookAppointment newId now stamp sid stid nts st = (Inl ConflictingAppointment, st))
      \<and> (0 < availableSeats slot \<and> isBookingAllowed (startISO slot) now
           \<and> \<not> conflicting st stid slot \<longrightarrow>
           (\<exists>a st' i. bookAppointment newId now stamp sid stid nts st = (Inr a, st')
              \<and> status a = BOOKED \<and> slotId a = sid \<and> studentId a = stid
              \<and> appt_id a = newId \<and> appt_notes a = nts
              \<and> users st' = users st
              \<and> appointments st' = appointments st @ [a]
              \<and> findIndex (\<lambda>s. slot_id s = sid) (slots st) = Some i
              \<and> slots st' = (slots st)
                   [i := slot\<lparr>availableSeats := availableSeats slot - 1\<rparr>])))"
proof -
  let ?book = "bookAppointment newId now stamp sid stid nts st"
  have nostudent: "?book = (Inl InvalidStudent, st)" if "\<not> validStudent st stid"
    using that by (simp add: bookAppointment_def find_student_None [symmetric])
  have noslot: "?book = (Inl SlotNotFound, st)"
    if "validStudent st stid" "sid \<notin> slot_id ` set (slots st)"
  proof -
    from that(1) obtain u where "find (\<lambda>u. user_id u = stid \<and> role u = STUDENT) (users st) = Some u"
      using find_student_None [of stid st] by auto
    moreover from that(2) have "find (\<lambda>s. slot_id s = sid) (slots st) = None"
      by (simp add: find_slot_None)
    ultimately show ?thesis by (simp add: bookAppointment_def)
  qed
  have rest: "(availableSeats slot \<le> 0 \<longrightarrow> ?book = (Inl SlotFull, st))
      \<and> (0 < availableSeats slot \<and> \<not> isBookingAllowed (startISO slot) now \<longrightarrow>
           ?book = (Inl TooLateToBook, st))
      \<and> (0 < availableSeats slot \<and> isBookingAllowed (startISO slot) now
           \<and> conflicting st stid slot \<longrightarrow> ?book = (Inl ConflictingAppointment, st))
      \<and> (0 < availableSeats slot \<and> isBookingAllowed (startISO slot) now
           \<and> \<not> conflicting st stid slot \<longrightarrow>
           (\<exists>a st' i. ?book = (Inr a, st')
              \<and> status a = BOOKED \<and> slotId a = sid \<and> studentId a = stid
              \<and> appt_id a = newId \<and> appt_notes a = nts
              \<and> users st' = users st
              \<and> appointments st' = appointments st @ [a]
              \<and> findIndex (\<lambda>s. slot_id s = sid) (slots st) = Some i
              \<and> slots st' = (slots st)
                   [i := slot\<lparr>availableSeats := availableSeats slot - 1\<rparr>]))"
    if vs: "validStudent st stid" and fs: "find (\<lambda>s. slot_id s = sid) (slots st) = Some slot"
  proof -
    from vs obtain u where u: "find (\<lambda>u. user_id u = stid \<and> role u = STUDENT) (users st) = Some u"
      using find_student_None [of stid st] by auto
    from storeSlot_found [OF fs] obtain i where
      i: "findIndex (\<lambda>s. slot_id s = sid) (slots st) = Some i"
         "storeSlot sid (slot\<lparr>availableSeats := availableSeats slot - 1\<rparr>) (slots st)
            = (slots st)[i := slot\<lparr>availableSeats := availableSeats slot - 1\<rparr>]"
      by blast
    show ?thesis
      using u fs i
      by (simp add: bookAppointment_def hasConflict_conflicting Let_def)
  qed
  from nostudent noslot rest show ?thesis by blast
qed

theorem bookAppointment_ordered_validation_witness:
  "(\<not> validStudent demoEmpty ''t1'' \<and>
      bookAppointment ''a1'' 0 5 ''slot1'' ''t1'' None demoEmpty = (Inl InvalidStudent, demoEmpty))
   \<and> (validStudent demoEmpty ''s1'' \<and> ''slot9'' \<notin> slot_id ` set (slots demoEmpty) \<and>
      bookAppointment ''a1'' 0 5 ''slot9'' ''s1'' None demoEmpty = (Inl SlotNotFound, demoEmpty))
   \<and> (validStudent demoBooked ''s2'' \<and>
      find (\<lambda>s. slot_id s = ''slot1'') (slots demoBooked) = Some (demoSlot 0) \<and>
      availableSeats (demoSlot 0) \<le> 0 \<and>
      bookAppointment ''a2'' 0 5 ''slot1'' ''s2'' None demoBooked = (Inl SlotFull, demoBooked))
   \<and> (validStudent demoEmpty ''s1'' \<and>
      find (\<lambda>s. slot_id s = ''slot1'') (slots demoEmpty) = Some (demoSlot 1) \<and>
      0 < availableSeats (demoSlot 1) \<and> \<not> isBookingAllowed (startISO (demoSlot 1)) 196400000 \<and>
      bookAppointment ''a1'' 196400000 196400005 ''slot1'' ''s1'' None demoEmpty
        = (Inl TooLateToBook, demoEmpty))
   \<and> (validStudent demoTwoSlots ''s1'' \<and>
      find (\<lambda>s. slot_id s = ''slot2'') (slots demoTwoSlots) = Some demoSlot2 \<and>
      0 < availableSeats demoSlot2 \<and> isBookingAllowed (startISO demoSlot2) 0 \<and>
      conflicting demoTwoSlots ''s1'' demoSlot2 \<and>
      bookAppointment ''a2'' 0 5 ''slot2'' ''s1'' None demoTwoSlots
        = (Inl ConflictingAppointment, demoTwoSlots))
   \<and> (validStudent demoEmpty ''s1'' \<and>
      find (\<lambda>s. slot_id s = ''slot1'') (slots demoEmpty) = Some (demoSlot 1) \<and>
      0 < availableSeats (demoSlot 1) \<and> isBookingAllowed (startISO (demoSlot 1)) 0 \<and>
      \<not> conflicting demoEmpty ''s1'' (demoSlot 1) \<and>
      (\<exists>a st' i. bookAppointment ''a1'' 0 5 ''slot1'' ''s1'' None demoEmpty = (Inr a, st')
         \<and> status a = BOOKED \<and> slotId a = ''slot1'' \<and> studentId a = ''s1''
         \<and> appt_id a = ''a1'' \<and> appt_notes a = None
         \<and> users st' = users demoEmpty
         \<and> appointments st' = appointments demoEmpty @ [a]
         \<and> findIndex (\<lambda>s. slot_id s = ''slot1'') (slots demoEmpty) = Some i
         \<and> slots st' = (slots demoEmpty)
              [i := (demoSlot 1)\<lparr>availableSeats := availableSeats (demoSlot 1) - 1\<rparr>]))"
proof -
  have a1: "\<not> validStudent demoEmpty ''t1''"
    by (simp add: validStudent_def demo_defs)
  have a2: "validStudent demoEmpty ''s1''" "''slot9'' \<notin> slot_id ` set (slots demoEmpty)"
    by (simp_all add: validStudent_def demo_defs)
  have a3: "validStudent demoBooked ''s2''"
    "find (\<lambda>s. slot_id s = ''slot1'') (slots demoBooked) = Some (demoSlot 0)"
    "availableSeats (demoSlot 0) \<le> 0"
    by (simp_all add: validStudent_def demo_defs)
  have a4: "find (\<lambda>s. slot_id s = ''slot1'') (slots demoEmpty) = Some (demoSlot 1)"
    "0 < availableSeats (demoSlot 1)"
    "\<not> isBookingAllowed (startISO (demoSlot 1)) 196400000"
    by (simp_all add: demo_defs isBookingAllowed_iff)
  have a5: "validStudent demoTwoSlots ''s1''"
    "find (\<lambda>s. slot_id s = ''slot2'') (slots demoTwoSlots) = Some demoSlot2"
    "0 < availableSeats demoSlot2" "isBookingAllowed (startISO demoSlot2) 0"
    "conflicting demoTwoSlots ''s1'' demoSlot2"
    by (simp_all add: validStudent_def demo2_defs isBookingAllowed_iff conflicting_def
        slotsOverlap_def num_less_def)
  have a6: "isBookingAllowed (startISO (demoSlot 1)) 0"
    "\<not> conflicting demoEmpty ''s1'' (demoSlot 1)"
    by (simp_all add: demo_defs isBookingAllowed_iff conflicting_def)
  note T = bookAppointment_ordered_validation
  from T [where st = demoEmpty and stid = "''t1''"] a1
  have c1: "bookAppointment ''a1'' 0 5 ''slot1'' ''t1'' None demoEmpty
              = (Inl InvalidStudent, demoEmpty)"
    by blast
  from T [where st = demoEmpty and stid = "''s1''" and sid = "''slot9''"] a2
  have c2: "bookAppointment ''a1'' 0 5 ''slot9'' ''s1'' None demoEmpty
              = (Inl SlotNotFound, demoEmpty)"
    by blast
  from T [where st = demoBooked and stid = "''s2''" and sid = "''slot1''"
            and slot = "demoSlot 0"] a3
  have c3: "bookAppointment ''a2'' 0 5 ''slot1'' ''s2'' None demoBooked
              = (Inl SlotFull, demoBooked)"
    by blast
  from T [where st = demoEmpty and stid = "''s1''" and sid = "''slot1''"
            and slot = "demoSlot 1" and now = 196400000] a2(1) a4
  have c4: "bookAppointment ''a1'' 196400000 196400005 ''slot1'' ''s1'' None demoEmpty
              = (Inl TooLateToBook, demoEmpty)"
    by blast
  from T [where st = demoTwoSlots and stid = "''s1''" and sid = "''slot2''"
            and slot = demoSlot2 and now = 0] a5
  have c5: "bookAppointment ''a2'' 0 5 ''slot2'' ''s1'' None demoTwoSlots
              = (Inl ConflictingAppointment, demoTwoSlots)"
    by blast
  from T [where st = demoEmpty and stid = "''s1''" and sid = "''slot1''"
            and slot = "demoSlot 1" and now = 0 and newId = "''a1''" and stamp = 5
            and nts = None] a2(1) a4(1,2) a6
  have c6: "\<exists>a st' i. bookAppointment ''a1'' 0 5 ''slot1'' ''s1'' None demoEmpty = (Inr a, st')
         \<and> status a = BOOKED \<and> slotId a = ''slot1'' \<and> studentId a = ''s1''
         \<and> appt_id a = ''a1'' \<and> appt_notes a = None
         \<and> users st' = users demoEmpty
         \<and> appointments st' = appointments demoEmpty @ [a]
         \<and> findIndex (\<lambda>s. slot_id s = ''slot1'') (slots demoEmpty) = Some i
         \<and> slots st' = (slots demoEmpty)
              [i := (demoSlot 1)\<lparr>availableSeats := availableSeats (demoSlot 1) - 1\<rparr>]"
    by blast
  show ?thesis
    using a1 a2 a3 a4 a5 a6 c1 c2 c3 c4 c5 c6 by blast
qed

text \<open>
  C4 (as stated, refuted). The claim says that 0 \<le> availableSeats \<le> maxSeats holds
  after every operation, cancelAppointment capping its increment at maxSeats. Two
  operations break it. The slot of demoCancelled has maxSeats = 1 and one free seat,
  its appointment a1 is already CANCELLED (the state after a booking and its
  cancellation): the teacher's cancelAppointment succeeds and leaves availableSeats = 2.
  The slot of demoFresh is new, with 3 of 3 seats free: updateSlot with maxSeats = 1
  succeeds and leaves availableSeats = 3 with maxSeats = 1, and updateSlot with
  availableSeats = 5 succeeds and leaves availableSeats = 5 with maxSeats = 3.
\<close>

theorem seat_bounds_broken:
  "seatsInRange demoCancelled \<and> seatsBounded demoCancelled
   \<and> fst (cancelAppointment 0 5 ''a1'' ''t1'' demoCancelled) = Inr ()
   \<and> slots (snd (cancelAppointment 0 5 ''a1'' ''t1'' demoCancelled)) = [demoSlot 2]
   \<and> maxSeats (demoSlot 2) = 1 \<and> availableSeats (demoSlot 2) = 2
   \<and> \<not> seatsInRange (snd (cancelAppointment 0 5 ''a1'' ''t1'' demoCancelled))
   \<and> seatsInRange demoFresh \<and> seatsBounded demoFresh
   \<and> fst (updateSlot ''slot3'' (demoSetMax 1) demoFresh)
        = Inr (demoSlotData\<lparr>slot_id := ''slot3'', maxSeats := 1, availableSeats := 3\<rparr>)
   \<and> \<not> seatsInRange (snd (updateSlot ''slot3'' (demoSetMax 1) demoFresh))
   \<and> fst (updateSlot ''slot3'' (demoSetFree 5) demoFresh)
        = Inr (demoSlotData\<lparr>slot_id := ''slot3'', availableSeats := 5\<rparr>)
   \<and> \<not> seatsInRange (snd (updateSlot ''slot3'' (demoSetFree 5) demoFresh))"
  by (simp add: seatsInRange_def seatsBounded_def bookedCount_def cancelAppointment_def
      storeSlot_def updateSlot_def hasBookings_def spread_def demoFresh_def demoSetMax_def
      demoSetFree_def demoSlotData_def demo_defs Let_def)

text \<open>
  C4 (amended). A successful cancelAppointment adds exactly 1 to the availableSeats of
  the appointment's slot, with no cap, and updateSlot stores the maxSeats and
  availableSeats it is given. What is kept is this: when for every slot
  0 \<le> availableSeats and availableSeats + (number of its BOOKED appointments) \<le> maxSeats
  (seatsBounded, which gives 0 \<le> availableSeats \<le> maxSeats), the same holds after a
  successful cancelAppointment of a BOOKED appointment, after markAttended, after
  deleteSlot, after bookAppointment when the slot ids are distinct, after createSlot
  with maxSeats \<ge> 0 and an id that no BOOKED appointment references, and after an
  updateSlot whose written slot satisfies it, as it does when the update leaves
  availableSeats alone and does not lower maxSeats. The plain bound
  0 \<le> availableSeats \<le> maxSeats is kept, with nothing else assumed, by
  bookAppointment, markAttended, deleteSlot, createSlot with maxSeats \<ge> 0 and an
  updateSlot whose written slot satisfies it. Distinct slot ids stay distinct under all
  six operations, for createSlot when the new id is fresh.
\<close>

theorem seat_bounds_preserved:
  "(seatsBounded st \<longrightarrow> seatsInRange st)
   \<and> (cancelAppointment now stamp appointmentId userId st = (Inr (), st') \<longrightarrow>
        (\<exists>i j. findIndex (\<lambda>a. appt_id a = appointmentId) (appointments st) = Some i \<and>
           findIndex (\<lambda>s. slot_id s = slotId (appointments st ! i)) (slots st) = Some j \<and>
           slots st' = (slots st)
             [j := (slots st ! j)\<lparr>availableSeats := availableSeats (slots st ! j) + 1\<rparr>]))
   \<and> (seatsBounded st \<and>
        cancelAppointment now stamp appointmentId userId st = (Inr (), st') \<and>
        statusOf appointmentId st = Some BOOKED \<longrightarrow> seatsBounded st')
   \<and> (seatsBounded st \<and> markAttended appointmentId st = (Inr (), st') \<longrightarrow>
        seatsBounded st')
   \<and> (seatsBounded st \<and> deleteSlot sid st = (Inr (), st') \<longrightarrow> seatsBounded st')
   \<and> (seatsBounded st \<and> distinct (map slot_id (slots st)) \<and>
        bookAppointment newId now stamp sid stid nts st = (Inr a, st') \<longrightarrow>
        seatsBounded st')
   \<and> (seatsBounded st \<and> createSlot newId slotData st = (Inr S, st') \<and>
        0 \<le> maxSeats slotData \<and>
        (\<forall>a\<in>set (appointments st). status a = BOOKED \<longrightarrow> slotId a \<noteq> newId) \<longrightarrow>
        seatsBounded st')
   \<and> (seatsBounded st \<and> updateSlot sid updates st = (Inr U, st') \<and>
        0 \<le> availableSeats U \<and>
        availableSeats U + int (bookedCount sid (appointments st)) \<le> maxSeats U \<longrightarrow>
        seatsBounded st')
   \<and> (seatsBounded st \<and> updateSlot sid updates st = (Inr U, st') \<and>
        upd_availableSeats updates = None \<and>
        (\<forall>m. upd_maxSeats updates = Some m \<longrightarrow>
           (\<forall>old\<in>set (slots st). slot_id old = sid \<longrightarrow> maxSeats old \<le> m)) \<longrightarrow>
        seatsBounded st')
   \<and> (seatsInRange st \<and>
        bookAppointment newId now stamp sid stid nts st = (Inr a, st') \<longrightarrow>
        seatsInRange st')
   \<and> (seatsInRange st \<and> markAttended appointmentId st = (Inr (), st') \<longrightarrow>
        seatsInRange st')
   \<and> (seatsInRange st \<and> deleteSlot sid st = (Inr (), st') \<longrightarrow> seatsInRange st')
   \<and> (seatsInRange st \<and> createSlot newId slotData st = (Inr S, st') \<and>
        0 \<le> maxSeats slotData \<longrightarrow> seatsInRange st')
   \<and> (seatsInRange st \<and> updateSlot sid updates st = (Inr U, st') \<and>
        0 \<le> availableSeats U \<and> availableSeats U \<le> maxSeats U \<longrightarrow>
        seatsInRange st')
   \<and> (seatsInRange st \<and> updateSlot sid updates st = (Inr U, st') \<and>
        upd_availableSeats updates = None \<and>
        (\<forall>m. upd_maxSeats updates = Some m \<longrightarrow>
           (\<forall>old\<in>set (slots st). slot_id old = sid \<longrightarrow> maxSeats old \<le> m)) \<longrightarrow>
        seatsInRange st')
   \<and> (distinct (map slot_id (slots st)) \<and>
        (cancelAppointment now stamp appointmentId userId st = (Inr (), st') \<or>
         markAttended appointmentId st = (Inr (), st') \<or>
         deleteSlot sid st = (Inr (), st') \<or>
         bookAppointment newId now stamp sid stid nts st = (Inr a, st') \<or>
         updateSlot sid updates st = (Inr U, st') \<or>
         createSlot newId slotData st = (Inr S, st') \<and>
           newId \<notin> slot_id ` set (slots st)) \<longrightarrow>
        distinct (map slot_id (slots st')))"
proof -
  have c1: "seatsBounded st \<longrightarrow> seatsInRange st"
    by (simp add: seatsBounded_range)
  have c2: "cancelAppointment now stamp appointmentId userId st = (Inr (), st') \<longrightarrow>
        (\<exists>i j. findIndex (\<lambda>a. appt_id a = appointmentId) (appointments st) = Some i \<and>
           findIndex (\<lambda>s. slot_id s = slotId (appointments st ! i)) (slots st) = Some j \<and>
           slots st' = (slots st)
             [j := (slots st ! j)\<lparr>availableSeats := availableSeats (slots st ! j) + 1\<rparr>])"
  proof
    assume ok: "cancelAppointment now stamp appointmentId userId st = (Inr (), st')"
    from ok obtain i j slot where
      "findIndex (\<lambda>a. appt_id a = appointmentId) (appointments st) = Some i"
      "slots st ! j = slot"
      "findIndex (\<lambda>s. slot_id s = slotId (appointments st ! i)) (slots st) = Some j"
      "slots st' = (slots st)[j := slot\<lparr>availableSeats := availableSeats slot + 1\<rparr>]"
      by (rule cancelAppointment_writes)
    then show "\<exists>i j. findIndex (\<lambda>a. appt_id a = appointmentId) (appointments st) = Some i \<and>
           findIndex (\<lambda>s. slot_id s = slotId (appointments st ! i)) (slots st) = Some j \<and>
           slots st' = (slots st)
             [j := (slots st ! j)\<lparr>availableSeats := availableSeats (slots st ! j) + 1\<rparr>]"
      by blast
  qed
  have c3: "seatsBounded st \<and>
        cancelAppointment now stamp appointmentId userId st = (Inr (), st') \<and>
        statusOf appointmentId st = Some BOOKED \<longrightarrow> seatsBounded st'"
    using cancelAppointment_bounded by blast
  have c4: "seatsBounded st \<and> markAttended appointmentId st = (Inr (), st') \<longrightarrow>
        seatsBounded st'"
    using markAttended_bounded by blast
  have c5: "seatsBounded st \<and> deleteSlot sid st = (Inr (), st') \<longrightarrow> seatsBounded st'"
    using deleteSlot_bounded by blast
  have c6: "seatsBounded st \<and> distinct (map slot_id (slots st)) \<and>
        bookAppointment newId now stamp sid stid nts st = (Inr a, st') \<longrightarrow>
        seatsBounded st'"
    using bookAppointment_bounded by blast
  have c7: "seatsBounded st \<and> createSlot newId slotData st = (Inr S, st') \<and>
        0 \<le> maxSeats slotData \<and>
        (\<forall>a\<in>set (appointments st). status a = BOOKED \<longrightarrow> slotId a \<noteq> newId) \<longrightarrow>
        seatsBounded st'"
    using createSlot_bounded [of st newId slotData S st'] by blast
  have g8: "seatsBounded st \<and> updateSlot sid updates st = (Inr U, st') \<and>
        0 \<le> availableSeats U \<and>
        availableSeats U + int (bookedCount sid (appointments st)) \<le> maxSeats U \<longrightarrow>
        seatsBounded st'"
    using updateSlot_bounded_written by blast
  have g13: "seatsInRange st \<and> updateSlot sid updates st = (Inr U, st') \<and>
        0 \<le> availableSeats U \<and> availableSeats U \<le> maxSeats U \<longrightarrow>
        seatsInRange st'"
    using updateSlot_range_written by blast
  have c8: "seatsBounded st \<and> updateSlot sid updates st = (Inr U, st') \<and>
        upd_availableSeats updates = None \<and>
        (\<forall>m. upd_maxSeats updates = Some m \<longrightarrow>
           (\<forall>old\<in>set (slots st). slot_id old = sid \<longrightarrow> maxSeats old \<le> m)) \<longrightarrow>
        seatsBounded st'"
    using updateSlot_bounded [of st sid updates U st'] by blast
  have c9: "seatsInRange st \<and>
        bookAppointment newId now stamp sid stid nts st = (Inr a, st') \<longrightarrow>
        seatsInRange st'"
    using bookAppointment_range by blast
  have c10: "seatsInRange st \<and> markAttended appointmentId st = (Inr (), st') \<longrightarrow>
        seatsInRange st'"
    using markAttended_range by blast
  have c11: "seatsInRange st \<and> deleteSlot sid st = (Inr (), st') \<longrightarrow> seatsInRange st'"
    using deleteSlot_range by blast
  have c12: "seatsInRange st \<and> createSlot newId slotData st = (Inr S, st') \<and>
        0 \<le> maxSeats slotData \<longrightarrow> seatsInRange st'"
    using createSlot_range by blast
  have c13: "seatsInRange st \<and> updateSlot sid updates st = (Inr U, st') \<and>
        upd_availableSeats updates = None \<and>
        (\<forall>m. upd_maxSeats updates = Some m \<longrightarrow>
           (\<forall>old\<in>set (slots st). slot_id old = sid \<longrightarrow> maxSeats old \<le> m)) \<longrightarrow>
        seatsInRange st'"
    using updateSlot_range [of st sid updates U st'] by blast
  have c14: "distinct (map slot_id (slots st)) \<and>
        (cancelAppointment now stamp appointmentId userId st = (Inr (), st') \<or>
         markAttended appointmentId st = (Inr (), st') \<or>
         deleteSlot sid st = (Inr (), st') \<or>
         bookAppointment newId now stamp sid stid nts st = (Inr a, st') \<or>
         updateSlot sid updates st = (Inr U, st') \<or>
         createSlot newId slotData st = (Inr S, st') \<and>
           newId \<notin> slot_id ` set (slots st)) \<longrightarrow>
        distinct (map slot_id (slots st'))"
  proof
    assume h: "distinct (map slot_id (slots st)) \<and>
        (cancelAppointment now stamp appointmentId userId st = (Inr (), st') \<or>
         markAttended appointmentId st = (Inr (), st') \<or>
         deleteSlot sid st = (Inr (), st') \<or>
         bookAppointment newId now stamp sid stid nts st = (Inr a, st') \<or>
         updateSlot sid updates st = (Inr U, st') \<or>
         createSlot newId slotData st = (Inr S, st') \<and>
           newId \<notin> slot_id ` set (slots st))"
    then have d: "distinct (map slot_id (slots st))" by simp
    from h consider
        (cancel) "cancelAppointment now stamp appointmentId userId st = (Inr (), st')"
      | (attend) "markAttended appointmentId st = (Inr (), st')"
      | (delete) "deleteSlot sid st = (Inr (), st')"
      | (book) "bookAppointment newId now stamp sid stid nts st = (Inr a, st')"
      | (update) "updateSlot sid updates st = (Inr U, st')"
      | (create) "createSlot newId slotData st = (Inr S, st')"
          "newId \<notin> slot_id ` set (slots st)"
      by blast
    then show "distinct (map slot_id (slots st'))"
    proof cases
      case cancel
      then show ?thesis by (rule distinct_ids_after(3) [OF d])
    next
      case attend
      then show ?thesis by (rule distinct_ids_after(4) [OF d])
    next
      case delete
      then show ?thesis by (rule distinct_ids_after(5) [OF d])
    next
      case book
      then show ?thesis by (rule distinct_ids_after(2) [OF d])
    next
      case update
      then show ?thesis by (rule distinct_ids_after(6) [OF d])
    next
      case create
      then show ?thesis by (rule distinct_ids_after(1) [OF d])
    qed
  qed
  show ?thesis
    by (intro conjI c1 c2 c3 c4 c5 c6 c7 g8 c8 c9 c10 c11 c12 g13 c13 c14)
qed

theorem seat_bounds_preserved_witness:
  "seatsBounded demoTwoBooked
   \<and> markAttended ''a1'' demoTwoBooked = (Inr (), demoOneAttended)
   \<and> seatsBounded demoOneAttended \<and> \<not> seatsConsistent demoOneAttended
   \<and> statusOf ''a2'' demoOneAttended = Some BOOKED
   \<and> fst (cancelAppointment 0 5 ''a2'' ''t1'' demoOneAttended) = Inr ()
   \<and> slots (snd (cancelAppointment 0 5 ''a2'' ''t1'' demoOneAttended))
        = [(demoSlot 1)\<lparr>maxSeats := 2\<rparr>]
   \<and> seatsBounded (snd (cancelAppointment 0 5 ''a2'' ''t1'' demoOneAttended))
   \<and> seatsInRange (snd (cancelAppointment 0 5 ''a2'' ''t1'' demoOneAttended))
   \<and> seatsBounded demoEmpty \<and> distinct (map slot_id (slots demoEmpty))
   \<and> seatsBounded (snd (bookAppointment ''a1'' 0 0 ''slot1'' ''s1'' None demoEmpty))
   \<and> 0 \<le> maxSeats demoSlotData
   \<and> seatsBounded (snd (createSlot ''slot3'' demoSlotData demoEmpty))
   \<and> fst (deleteSlot ''slot1'' demoEmpty) = Inr ()
   \<and> seatsBounded (snd (deleteSlot ''slot1'' demoEmpty))
   \<and> seatsBounded demoFresh
   \<and> fst (updateSlot ''slot3'' (demoSetMax 5) demoFresh)
        = Inr (demoSlotData\<lparr>slot_id := ''slot3'', maxSeats := 5, availableSeats := 3\<rparr>)
   \<and> seatsBounded (snd (updateSlot ''slot3'' (demoSetMax 5) demoFresh))"
proof -
  note T = seat_bounds_preserved
  have two: "seatsBounded demoTwoBooked"
    by (simp add: seatsBounded_def bookedCount_def demoTwoBooked_def demo_defs)
  have att: "markAttended ''a1'' demoTwoBooked = (Inr (), demoOneAttended)"
    by (simp add: markAttended_def demoTwoBooked_def demoOneAttended_def demo_defs)
  from T [where st = demoTwoBooked and appointmentId = "''a1''" and st' = demoOneAttended]
    two att
  have one: "seatsBounded demoOneAttended" by blast
  have off: "\<not> seatsConsistent demoOneAttended"
    by (simp add: seatsConsistent_def bookedCount_def demoOneAttended_def demo_defs)
  have b2: "statusOf ''a2'' demoOneAttended = Some BOOKED"
    by (simp add: statusOf_def demoOneAttended_def demo_defs)
  have r: "fst (cancelAppointment 0 5 ''a2'' ''t1'' demoOneAttended) = Inr ()"
    by (simp add: cancelAppointment_def demoOneAttended_def demo_defs Let_def)
  then have p: "cancelAppointment 0 5 ''a2'' ''t1'' demoOneAttended
      = (Inr (), snd (cancelAppointment 0 5 ''a2'' ''t1'' demoOneAttended))"
    by (simp add: prod_eq_iff)
  have s: "slots (snd (cancelAppointment 0 5 ''a2'' ''t1'' demoOneAttended))
        = [(demoSlot 1)\<lparr>maxSeats := 2\<rparr>]"
    by (simp add: cancelAppointment_def storeSlot_def demoOneAttended_def demo_defs Let_def)
  from T [where st = demoOneAttended and now = 0 and stamp = 5 and appointmentId = "''a2''"
      and userId = "''t1''"
      and st' = "snd (cancelAppointment 0 5 ''a2'' ''t1'' demoOneAttended)"] one p b2
  have c: "seatsBounded (snd (cancelAppointment 0 5 ''a2'' ''t1'' demoOneAttended))"
    by blast
  from T [where st = "snd (cancelAppointment 0 5 ''a2'' ''t1'' demoOneAttended)"] c
  have cr: "seatsInRange (snd (cancelAppointment 0 5 ''a2'' ''t1'' demoOneAttended))"
    by blast
  have e: "seatsBounded demoEmpty" "distinct (map slot_id (slots demoEmpty))"
    "0 \<le> maxSeats demoSlotData" "seatsBounded demoFresh"
    by (simp_all add: seatsBounded_def bookedCount_def demoFresh_def demoSlotData_def
        demo_defs)
  have f: "\<forall>a\<in>set (appointments demoEmpty). status a = BOOKED \<longrightarrow> slotId a \<noteq> ''slot3''"
    by (simp add: demo_defs)
  have p1: "createSlot ''slot3'' demoSlotData demoEmpty
      = (Inr (demoSlotData\<lparr>slot_id := ''slot3'', availableSeats := 3\<rparr>),
         snd (createSlot ''slot3'' demoSlotData demoEmpty))"
    by (simp add: createSlot_def demoSlotData_def demo_defs num_ge_def slotsOverlap_def
        num_less_def Let_def)
  have p2: "bookAppointment ''a1'' 0 0 ''slot1'' ''s1'' None demoEmpty
      = (Inr (demoAppt BOOKED), snd (bookAppointment ''a1'' 0 0 ''slot1'' ''s1'' None demoEmpty))"
    by (simp add: bookAppointment_def demo_defs isBookingAllowed_iff hasConflict_def Let_def)
  have r3: "fst (deleteSlot ''slot1'' demoEmpty) = Inr ()"
    by (simp add: deleteSlot_def hasBookings_def demo_defs)
  then have p3: "deleteSlot ''slot1'' demoEmpty = (Inr (), snd (deleteSlot ''slot1'' demoEmpty))"
    by (simp add: prod_eq_iff)
  have r4: "fst (updateSlot ''slot3'' (demoSetMax 5) demoFresh)
        = Inr (demoSlotData\<lparr>slot_id := ''slot3'', maxSeats := 5, availableSeats := 3\<rparr>)"
    by (simp add: updateSlot_def hasBookings_def spread_def demoFresh_def demoSetMax_def
        demoSlotData_def demo_defs Let_def)
  then have p4: "updateSlot ''slot3'' (demoSetMax 5) demoFresh
      = (Inr (demoSlotData\<lparr>slot_id := ''slot3'', maxSeats := 5, availableSeats := 3\<rparr>),
         snd (updateSlot ''slot3'' (demoSetMax 5) demoFresh))"
    by (simp add: prod_eq_iff)
  have u: "upd_availableSeats (demoSetMax 5) = None"
    "\<forall>m. upd_maxSeats (demoSetMax 5) = Some m \<longrightarrow>
       (\<forall>old\<in>set (slots demoFresh). slot_id old = ''slot3'' \<longrightarrow> maxSeats old \<le> m)"
    by (simp_all add: demoSetMax_def demoFresh_def demoSlotData_def)
  from T [where st = demoEmpty and newId = "''a1''" and now = 0 and stamp = 0
      and sid = "''slot1''" and stid = "''s1''" and nts = None and a = "demoAppt BOOKED"
      and st' = "snd (bookAppointment ''a1'' 0 0 ''slot1'' ''s1'' None demoEmpty)"] e(1,2) p2
  have c6: "seatsBounded (snd (bookAppointment ''a1'' 0 0 ''slot1'' ''s1'' None demoEmpty))"
    by blast
  from T [where st = demoEmpty and newId = "''slot3''" and slotData = demoSlotData
      and S = "demoSlotData\<lparr>slot_id := ''slot3'', availableSeats := 3\<rparr>"
      and st' = "snd (createSlot ''slot3'' demoSlotData demoEmpty)"] e(1,3) p1 f
  have c7: "seatsBounded (snd (createSlot ''slot3'' demoSlotData demoEmpty))"
    by blast
  from T [where st = demoEmpty and sid = "''slot1''"
      and st' = "snd (deleteSlot ''slot1'' demoEmpty)"] e(1) p3
  have c5: "seatsBounded (snd (deleteSlot ''slot1'' demoEmpty))"
    by blast
  from T [where st = demoFresh and sid = "''slot3''" and updates = "demoSetMax 5"
      and U = "demoSlotData\<lparr>slot_id := ''slot3'', maxSeats := 5, availableSeats := 3\<rparr>"
      and st' = "snd (updateSlot ''slot3'' (demoSetMax 5) demoFresh)"] e(4) p4 u
  have c8: "seatsBounded (snd (updateSlot ''slot3'' (demoSetMax 5) demoFresh))"
    by blast
  from two att one off b2 r s c cr e c6 c7 r3 c5 r4 c8 show ?thesis by blast
qed

text \<open>
  C5. For an appointment whose slot exists, cancelAppointment fails with NotAuthorized
  exactly when the acting user is neither the appointment's student nor the slot's
  teacher. When the actor is the student, more than 24 hours must remain until the slot
  starts, else TooLateToCancel; a cancellation by the teacher succeeds whatever the time.
  At exactly 23 hours before the start the student's cancellation fails and the
  teacher's succeeds.
\<close>

theorem cancelAppointment_authorization:
  assumes "findIndex (\<lambda>a. appt_id a = appointmentId) (appointments st) = Some i"
    and "find (\<lambda>s. slot_id s = slotId (appointments st ! i)) (slots st) = Some slot"
  shows "(fst (cancelAppointment now stamp appointmentId userId st) = Inl NotAuthorized)
           = (studentId (appointments st ! i) \<noteq> userId \<and> teacherId slot \<noteq> userId)
   \<and> (studentId (appointments st ! i) = userId \<and>
        \<not> isWithinCancellationWindow (startISO slot) now \<longrightarrow>
        cancelAppointment now stamp appointmentId userId st = (Inl TooLateToCancel, st))
   \<and> (studentId (appointments st ! i) = userId \<and>
        isWithinCancellationWindow (startISO slot) now \<longrightarrow>
        fst (cancelAppointment now stamp appointmentId userId st) = Inr ())
   \<and> (teacherId slot = userId \<and> studentId (appointments st ! i) \<noteq> userId \<longrightarrow>
        fst (cancelAppointment now stamp appointmentId userId st) = Inr ())
   \<and> (startISO slot = Some (now + 23 * 3600000) \<longrightarrow>
        (studentId (appointments st ! i) = userId \<longrightarrow>
           cancelAppointment now stamp appointmentId userId st = (Inl TooLateToCancel, st))
      \<and> (teacherId slot = userId \<and> studentId (appointments st ! i) \<noteq> userId \<longrightarrow>
           fst (cancelAppointment now stamp appointmentId userId st) = Inr ()))"
proof -
  note C = cancelAppointment_found [OF assms, of now stamp userId]
  have late: "\<not> isWithinCancellationWindow (startISO slot) now"
    if "startISO slot = Some (now + 23 * 3600000)"
    using that by (simp add: isWithinCancellationWindow_iff)
  show ?thesis
    using late by (auto simp: C)
qed

theorem cancelAppointment_authorization_witness:
  "findIndex (\<lambda>a. appt_id a = ''a1'') (appointments demoBooked) = Some 0
   \<and> find (\<lambda>s. slot_id s = slotId (appointments demoBooked ! 0)) (slots demoBooked)
       = Some (demoSlot 0)
   \<and> startISO (demoSlot 0) = Some (117200000 + 23 * 3600000)
   \<and> studentId (appointments demoBooked ! 0) = ''s1''
   \<and> teacherId (demoSlot 0) = ''t1''
   \<and> fst (cancelAppointment 117200000 117200005 ''a1'' ''s2'' demoBooked) = Inl NotAuthorized
   \<and> cancelAppointment 117200000 117200005 ''a1'' ''s1'' demoBooked
       = (Inl TooLateToCancel, demoBooked)
   \<and> fst (cancelAppointment 117200000 117200005 ''a1'' ''t1'' demoBooked) = Inr ()"
proof -
  have h: "findIndex (\<lambda>a. appt_id a = ''a1'') (appointments demoBooked) = Some 0"
    "find (\<lambda>s. slot_id s = slotId (appointments demoBooked ! 0)) (slots demoBooked)
       = Some (demoSlot 0)"
    by (simp_all add: demo_defs)
  have g: "startISO (demoSlot 0) = Some (117200000 + 23 * 3600000)"
    "studentId (appointments demoBooked ! 0) = ''s1''"
    "teacherId (demoSlot 0) = ''t1''"
    by (simp_all add: demo_defs)
  note T = cancelAppointment_authorization [OF h, where now = 117200000 and stamp = 117200005]
  from T [of "''s2''"] g
  have c1: "fst (cancelAppointment 117200000 117200005 ''a1'' ''s2'' demoBooked) = Inl NotAuthorized"
    by simp
  from T [of "''s1''"] g
  have c2: "cancelAppointment 117200000 117200005 ''a1'' ''s1'' demoBooked
       = (Inl TooLateToCancel, demoBooked)"
    by simp
  from T [of "''t1''"] g
  have c3: "fst (cancelAppointment 117200000 117200005 ''a1'' ''t1'' demoBooked) = Inr ()"
    by simp
  from h g c1 c2 c3 show ?thesis by blast
qed

text \<open>
  C6. The overlap test of createSlot and bookAppointment is true exactly when
  aStart < bEnd and bStart < aEnd: ranges that touch at an endpoint, such as
  10:00-11:00 and 11:00-12:00, do not overlap; 10:00-11:00 and 10:30-11:30 do.
  Times of day are written in milliseconds.
\<close>

theorem slotsOverlap_half_open:
  "slotsOverlap (Some aStart) (Some aEnd) (Some bStart) (Some bEnd)
     = (aStart < bEnd \<and> bStart < aEnd)
   \<and> \<not> slotsOverlap (Some aStart) (Some touch) (Some touch) (Some bEnd)
   \<and> \<not> slotsOverlap (Some touch) (Some aEnd) (Some bStart) (Some touch)
   \<and> \<not> slotsOverlap (Some 36000000) (Some 39600000) (Some 39600000) (Some 43200000)
   \<and> slotsOverlap (Some 36000000) (Some 39600000) (Some 37800000) (Some 41400000)"
  by (simp add: slotsOverlap_def num_less_def)

text \<open>
  C7. isBookingAllowed is true exactly when more than one hour (3600000 ms) remains
  until the slot starts: at 61 minutes the check passes and the booking goes through,
  at 60 minutes or fewer bookAppointment fails with TooLateToBook. In the same way the
  student's cancellation needs more than 24 hours (86400000 ms): at 24 hours or fewer
  it fails with TooLateToCancel, at 25 hours it succeeds.
\<close>

theorem booking_and_cancellation_windows:
  "isBookingAllowed (Some slotStart) now = (3600000 < slotStart - now)
   \<and> isBookingAllowed (Some (now + 61 * 60000)) now
   \<and> \<not> isBookingAllowed (Some (now + 60 * 60000)) now
   \<and> (validStudent st stid \<and> find (\<lambda>s. slot_id s = sid) (slots st) = Some slot \<and>
        0 < availableSeats slot \<and> \<not> conflicting st stid slot \<and>
        startISO slot = Some (now + 61 * 60000) \<longrightarrow>
        (\<exists>a st'. bookAppointment newId now stamp sid stid nts st = (Inr a, st')))
   \<and> (validStudent st stid \<and> find (\<lambda>s. slot_id s = sid) (slots st) = Some slot \<and>
        0 < availableSeats slot \<and>
        startISO slot = Some slotStart \<and> slotStart - now \<le> 60 * 60000 \<longrightarrow>
        bookAppointment newId now stamp sid stid nts st = (Inl TooLateToBook, st))
   \<and> isWithinCancellationWindow (Some slotStart) now = (86400000 < slotStart - now)
   \<and> (findIndex (\<lambda>a. appt_id a = appointmentId) (appointments st) = Some i \<and>
        find (\<lambda>s. slot_id s = slotId (appointments st ! i)) (slots st) = Some cslot \<and>
        studentId (appointments st ! i) = userId \<and>
        startISO cslot = Some slotStart \<and> slotStart - now \<le> 24 * 3600000 \<longrightarrow>
        cancelAppointment now stamp appointmentId userId st = (Inl TooLateToCancel, st))
   \<and> (findIndex (\<lambda>a. appt_id a = appointmentId) (appointments st) = Some i \<and>
        find (\<lambda>s. slot_id s = slotId (appointments st ! i)) (slots st) = Some cslot \<and>
        studentId (appointments st ! i) = userId \<and>
        startISO cslot = Some (now + 25 * 3600000) \<longrightarrow>
        fst (cancelAppointment now stamp appointmentId userId st) = Inr ())"
proof -
  have book61: "\<exists>a st'. bookAppointment newId now stamp sid stid nts st = (Inr a, st')"
    if "validStudent st stid" "find (\<lambda>s. slot_id s = sid) (slots st) = Some slot"
      "0 < availableSeats slot" "\<not> conflicting st stid slot"
      "startISO slot = Some (now + 61 * 60000)"
    using that(3-5) by (simp add: bookAppointment_found [OF that(1,2)] isBookingAllowed_iff)
  have book60: "bookAppointment newId now stamp sid stid nts st = (Inl TooLateToBook, st)"
    if "validStudent st stid" "find (\<lambda>s. slot_id s = sid) (slots st) = Some slot"
      "0 < availableSeats slot" "startISO slot = Some slotStart"
      "slotStart - now \<le> 60 * 60000"
    using that(3-5) by (simp add: bookAppointment_found [OF that(1,2)] isBookingAllowed_iff)
  have cancel24: "cancelAppointment now stamp appointmentId userId st = (Inl TooLateToCancel, st)"
    if "findIndex (\<lambda>a. appt_id a = appointmentId) (appointments st) = Some i"
      "find (\<lambda>s. slot_id s = slotId (appointments st ! i)) (slots st) = Some cslot"
      "studentId (appointments st ! i) = userId"
      "startISO cslot = Some slotStart" "slotStart - now \<le> 24 * 3600000"
    using that(3-5)
    by (simp add: cancelAppointment_found [OF that(1,2)] isWithinCancellationWindow_iff)
  have cancel25: "fst (cancelAppointment now stamp appointmentId userId st) = Inr ()"
    if "findIndex (\<lambda>a. appt_id a = appointmentId) (appointments st) = Some i"
      "find (\<lambda>s. slot_id s = slotId (appointments st ! i)) (slots st) = Some cslot"
      "studentId (appointments st ! i) = userId"
      "startISO cslot = Some (now + 25 * 3600000)"
    using that(3-4)
    by (simp add: cancelAppointment_found [OF that(1,2)] isWithinCancellationWindow_iff)
  have w: "isBookingAllowed (Some slotStart) now = (3600000 < slotStart - now)"
    "isBookingAllowed (Some (now + 61 * 60000)) now"
    "\<not> isBookingAllowed (Some (now + 60 * 60000)) now"
    "isWithinCancellationWindow (Some slotStart) now = (86400000 < slotStart - now)"
    by (simp_all add: isBookingAllowed_iff isWithinCancellationWindow_iff)
  from w book61 book60 cancel24 cancel25 show ?thesis by blast
qed

theorem booking_and_cancellation_windows_witness:
  "(validStudent demoEmpty ''s1'' \<and>
      find (\<lambda>s. slot_id s = ''slot1'') (slots demoEmpty) = Some (demoSlot 1) \<and>
      0 < availableSeats (demoSlot 1) \<and> \<not> conflicting demoEmpty ''s1'' (demoSlot 1) \<and>
      startISO (demoSlot 1) = Some (196340000 + 61 * 60000) \<and>
      (\<exists>a st'. bookAppointment ''a1'' 196340000 196340005 ''slot1'' ''s1'' None demoEmpty
                 = (Inr a, st')))
   \<and> (startISO (demoSlot 1) = Some 200000000 \<and> (200000000::int) - 196400000 \<le> 60 * 60000 \<and>
      bookAppointment ''a1'' 196400000 196400005 ''slot1'' ''s1'' None demoEmpty
        = (Inl TooLateToBook, demoEmpty))
   \<and> (findIndex (\<lambda>a. appt_id a = ''a1'') (appointments demoBooked) = Some 0 \<and>
      find (\<lambda>s. slot_id s = slotId (appointments demoBooked ! 0)) (slots demoBooked)
        = Some (demoSlot 0) \<and>
      studentId (appointments demoBooked ! 0) = ''s1'' \<and>
      startISO (demoSlot 0) = Some 200000000 \<and> (200000000::int) - 113600000 \<le> 24 * 3600000 \<and>
      cancelAppointment 113600000 113600005 ''a1'' ''s1'' demoBooked
        = (Inl TooLateToCancel, demoBooked))
   \<and> (startISO (demoSlot 0) = Some (110000000 + 25 * 3600000) \<and>
      fst (cancelAppointment 110000000 110000005 ''a1'' ''s1'' demoBooked) = Inr ())"
proof -
  have b: "validStudent demoEmpty ''s1''"
    "find (\<lambda>s. slot_id s = ''slot1'') (slots demoEmpty) = Some (demoSlot 1)"
    "0 < availableSeats (demoSlot 1)" "\<not> conflicting demoEmpty ''s1'' (demoSlot 1)"
    "startISO (demoSlot 1) = Some (196340000 + 61 * 60000)"
    "startISO (demoSlot 1) = Some 200000000" "(200000000::int) - 196400000 \<le> 60 * 60000"
    by (simp_all add: validStudent_def conflicting_def demo_defs)
  have c: "findIndex (\<lambda>a. appt_id a = ''a1'') (appointments demoBooked) = Some 0"
    "find (\<lambda>s. slot_id s = slotId (appointments demoBooked ! 0)) (slots demoBooked)
        = Some (demoSlot 0)"
    "studentId (appointments demoBooked ! 0) = ''s1''"
    "startISO (demoSlot 0) = Some 200000000" "(200000000::int) - 113600000 \<le> 24 * 3600000"
    "startISO (demoSlot 0) = Some (110000000 + 25 * 3600000)"
    by (simp_all add: demo_defs)
  note T = booking_and_cancellation_windows
  from T [where st = demoEmpty and stid = "''s1''" and sid = "''slot1''"
            and slot = "demoSlot 1" and now = 196340000 and newId = "''a1''"
            and stamp = 196340005 and nts = None] b
  have r1: "\<exists>a st'. bookAppointment ''a1'' 196340000 196340005 ''slot1'' ''s1'' None demoEmpty
                 = (Inr a, st')"
    by blast
  from T [where st = demoEmpty and stid = "''s1''" and sid = "''slot1''"
            and slot = "demoSlot 1" and now = 196400000 and slotStart = 200000000
            and newId = "''a1''" and stamp = 196400005 and nts = None] b
  have r2: "bookAppointment ''a1'' 196400000 196400005 ''slot1'' ''s1'' None demoEmpty
        = (Inl TooLateToBook, demoEmpty)"
    by blast
  from T [where st = demoBooked and appointmentId = "''a1''" and i = 0
            and cslot = "demoSlot 0" and userId = "''s1''" and now = 113600000
            and slotStart = 200000000 and stamp = 113600005] c
  have r3: "cancelAppointment 113600000 113600005 ''a1'' ''s1'' demoBooked
        = (Inl TooLateToCancel, demoBooked)"
    by blast
  from T [where st = demoBooked and appointmentId = "''a1''" and i = 0
            and cslot = "demoSlot 0" and userId = "''s1''" and now = 110000000
            and stamp = 110000005] c
  have r4: "fst (cancelAppointment 110000000 110000005 ''a1'' ''s1'' demoBooked) = Inr ()"
    by blast
  from b c r1 r2 r3 r4 show ?thesis by blast
qed

text \<open>
  C8. A successful bookAppointment followed by a successful cancelAppointment of the
  appointment it returned (its uid not in use by an earlier appointment) leaves the
  slots, and so the slot's availableSeats, exactly as before the booking; the same
  holds after any number of such cycles, each with a uid of its own.
\<close>

theorem book_cancel_round_trip:
  "(bookAppointment newId now stamp sid stid nts st = (Inr a, st1) \<and>
      newId \<notin> appt_id ` set (appointments st) \<and>
      cancelAppointment now' stamp' (appt_id a) userId st1 = (Inr (), st2) \<longrightarrow>
      slots st2 = slots st \<and>
      map_option availableSeats (find (\<lambda>s. slot_id s = sid) (slots st2))
        = map_option availableSeats (find (\<lambda>s. slot_id s = sid) (slots st)))
   \<and> (distinct (map fst cs) \<and> fst ` set cs \<inter> appt_id ` set (appointments st) = {} \<and>
      bookCancelCycles cs sid stid nts st = (Inr (), st') \<longrightarrow>
      slots st' = slots st \<and>
      map_option availableSeats (find (\<lambda>s. slot_id s = sid) (slots st'))
        = map_option availableSeats (find (\<lambda>s. slot_id s = sid) (slots st)))"
proof -
  have one: "slots st2 = slots st"
    if "bookAppointment newId now stamp sid stid nts st = (Inr a, st1)"
      "newId \<notin> appt_id ` set (appointments st)"
      "cancelAppointment now' stamp' (appt_id a) userId st1 = (Inr (), st2)"
    using that by (rule round_trip_step(1))
  have many: "slots st' = slots st"
    if "distinct (map fst cs)" "fst ` set cs \<inter> appt_id ` set (appointments st) = {}"
      "bookCancelCycles cs sid stid nts st = (Inr (), st')"
    using that by (rule bookCancelCycles_slots)
  from one many show ?thesis by auto
qed

theorem book_cancel_round_trip_witness:
  "distinct (map fst demoCycles)
   \<and> fst ` set demoCycles \<inter> appt_id ` set (appointments demoEmpty) = {}
   \<and> length demoCycles = 3
   \<and> fst (bookCancelCycles demoCycles ''slot1'' ''s1'' None demoEmpty) = Inr ()
   \<and> slots (snd (bookCancelCycles demoCycles ''slot1'' ''s1'' None demoEmpty))
       = slots demoEmpty
   \<and> map_option availableSeats (find (\<lambda>s. slot_id s = ''slot1'')
         (slots (snd (bookCancelCycles demoCycles ''slot1'' ''s1'' None demoEmpty))))
       = Some 1"
proof -
  have h: "distinct (map fst demoCycles)"
    "fst ` set demoCycles \<inter> appt_id ` set (appointments demoEmpty) = {}"
    "length demoCycles = 3"
    by (simp_all add: demoCycles_def demo_defs)
  have r: "fst (bookCancelCycles demoCycles ''slot1'' ''s1'' None demoEmpty) = Inr ()"
    by (simp add: demoCycles_def bookThenCancel_def bookAppointment_def
        cancelAppointment_def storeSlot_def hasConflict_def isBookingAllowed_iff
        isWithinCancellationWindow_iff demo_defs Let_def)
  then have p: "bookCancelCycles demoCycles ''slot1'' ''s1'' None demoEmpty
      = (Inr (), snd (bookCancelCycles demoCycles ''slot1'' ''s1'' None demoEmpty))"
    by (simp add: prod_eq_iff)
  from book_cancel_round_trip [where cs = demoCycles and sid = "''slot1''"
      and stid = "''s1''" and nts = None and st = demoEmpty
      and st' = "snd (bookCancelCycles demoCycles ''slot1'' ''s1'' None demoEmpty)"] h p
  have c: "slots (snd (bookCancelCycles demoCycles ''slot1'' ''s1'' None demoEmpty))
       = slots demoEmpty"
    "map_option availableSeats (find (\<lambda>s. slot_id s = ''slot1'')
         (slots (snd (bookCancelCycles demoCycles ''slot1'' ''s1'' None demoEmpty))))
       = map_option availableSeats (find (\<lambda>s. slot_id s = ''slot1'') (slots demoEmpty))"
    by blast+
  have "map_option availableSeats (find (\<lambda>s. slot_id s = ''slot1'') (slots demoEmpty))
      = Some 1"
    by (simp add: demo_defs)
  with h r c show ?thesis by simp
qed

text \<open>
  C9. When a validation of bookAppointment fails (invalid student, missing slot, full
  slot, closed booking window, conflicting appointment) the call throws before any
  write: the storage, and so the appointments and the slots, are as before the call.
\<close>

theorem bookAppointment_failure_writes_nothing:
  "(\<not> validStudent st stid \<or> sid \<notin> slot_id ` set (slots st) \<or>
      (\<exists>slot. find (\<lambda>s. slot_id s = sid) (slots st) = Some slot \<and>
         (availableSeats slot \<le> 0 \<or> \<not> isBookingAllowed (startISO slot) now \<or>
          conflicting st stid slot))
     \<longrightarrow> (\<exists>e. bookAppointment newId now stamp sid stid nts st = (Inl e, st)))
   \<and> (bookAppointment newId now stamp sid stid nts st = (Inl e, st') \<longrightarrow>
        st' = st \<and> appointments st' = appointments st \<and> slots st' = slots st \<and>
        e \<in> {InvalidStudent, SlotNotFound, SlotFull, TooLateToBook, ConflictingAppointment})"
proof (rule conjI; rule impI)
  assume fails: "\<not> validStudent st stid \<or> sid \<notin> slot_id ` set (slots st) \<or>
      (\<exists>slot. find (\<lambda>s. slot_id s = sid) (slots st) = Some slot \<and>
         (availableSeats slot \<le> 0 \<or> \<not> isBookingAllowed (startISO slot) now \<or>
          conflicting st stid slot))"
  show "\<exists>e. bookAppointment newId now stamp sid stid nts st = (Inl e, st)"
  proof (cases "validStudent st stid")
    case False
    then show ?thesis
      by (simp add: bookAppointment_def find_student_None [symmetric])
  next
    case True
    then obtain u where
      u: "find (\<lambda>u. user_id u = stid \<and> role u = STUDENT) (users st) = Some u"
      using find_student_None [of stid st] by auto
    show ?thesis
    proof (cases "find (\<lambda>s. slot_id s = sid) (slots st)")
      case None
      with u show ?thesis by (simp add: bookAppointment_def)
    next
      case (Some slot)
      with fails True have "availableSeats slot \<le> 0 \<or> \<not> isBookingAllowed (startISO slot) now \<or>
          conflicting st stid slot"
        by (auto simp: find_slot_None [symmetric])
      then show ?thesis
        by (auto simp: bookAppointment_found [OF True Some])
    qed
  qed
next
  assume "bookAppointment newId now stamp sid stid nts st = (Inl e, st')"
  then show "st' = st \<and> appointments st' = appointments st \<and> slots st' = slots st \<and>
        e \<in> {InvalidStudent, SlotNotFound, SlotFull, TooLateToBook, ConflictingAppointment}"
    unfolding bookAppointment_def
    by (auto split: option.splits if_splits simp: Let_def)
qed

theorem bookAppointment_failure_writes_nothing_witness:
  "(availableSeats (demoSlot 0) \<le> 0 \<and>
      find (\<lambda>s. slot_id s = ''slot1'') (slots demoBooked) = Some (demoSlot 0))
   \<and> (\<exists>e. bookAppointment ''a2'' 0 5 ''slot1'' ''s2'' None demoBooked = (Inl e, demoBooked))
   \<and> bookAppointment ''a2'' 0 5 ''slot1'' ''s2'' None demoBooked = (Inl SlotFull, demoBooked)
   \<and> appointments demoBooked = [demoAppt BOOKED] \<and> slots demoBooked = [demoSlot 0]"
proof -
  have h: "availableSeats (demoSlot 0) \<le> 0"
    "find (\<lambda>s. slot_id s = ''slot1'') (slots demoBooked) = Some (demoSlot 0)"
    by (simp_all add: demo_defs)
  have r: "bookAppointment ''a2'' 0 5 ''slot1'' ''s2'' None demoBooked = (Inl SlotFull, demoBooked)"
    by (simp add: bookAppointment_def demo_defs)
  note T = bookAppointment_failure_writes_nothing
    [where st = demoBooked and sid = "''slot1''" and stid = "''s2''" and now = 0
       and newId = "''a2''" and stamp = 5 and nts = None and e = SlotFull
       and st' = demoBooked]
  from T h have "\<exists>e. bookAppointment ''a2'' 0 5 ''slot1'' ''s2'' None demoBooked = (Inl e, demoBooked)"
    by blast
  moreover from T r have "appointments demoBooked = appointments demoBooked" by blast
  ultimately show ?thesis using h r by (simp add: demoBooked_def)
qed

text \<open>
  C10. When the slotId of the appointment resolves to no slot, cancelAppointment throws
  "Associated slot not found", an error of its own and not one of the other kinds,
  whoever the acting user is (the slot is looked up before the authorization check),
  and the storage is unchanged.
\<close>

theorem cancelAppointment_missing_slot:
  "findIndex (\<lambda>a. appt_id a = appointmentId) (appointments st) = Some i \<Longrightarrow>
   slotId (appointments st ! i) \<notin> slot_id ` set (slots st) \<Longrightarrow>
   cancelAppointment now stamp appointmentId userId st = (Inl AssociatedSlotNotFound, st)
   \<and> message AssociatedSlotNotFound = ''Associated slot not found''
   \<and> AssociatedSlotNotFound \<notin> {SlotNotFound, AppointmentNotFound, NotAuthorized,
        TooLateToCancel}"
  by (simp add: cancelAppointment_def find_slot_None [symmetric])

theorem cancelAppointment_missing_slot_witness:
  "findIndex (\<lambda>a. appt_id a = ''a1'') (appointments demoDangling) = Some 0
   \<and> slotId (appointments demoDangling ! 0) \<notin> slot_id ` set (slots demoDangling)
   \<and> cancelAppointment 0 5 ''a1'' ''nobody'' demoDangling
       = (Inl AssociatedSlotNotFound, demoDangling)"
proof -
  have h: "findIndex (\<lambda>a. appt_id a = ''a1'') (appointments demoDangling) = Some 0"
    "slotId (appointments demoDangling ! 0) \<notin> slot_id ` set (slots demoDangling)"
    by (simp_all add: demoDangling_def demo_defs)
  from cancelAppointment_missing_slot [OF h, of 0 5 "''nobody''"] h show ?thesis
    by blast
qed

end
